theory Spec2Isabelle
  imports Main "HOL-Library.Monad_Syntax"
begin

section \<open>Event planner backend: handlers of controllers.go over an explicit store\<close>

text \<open>
  The handlers of \<^verbatim>\<open>controllers.go\<close> read and write four tables through the global
  handle \<^verbatim>\<open>DB\<close>. Here the store is a record that every handler takes and returns, a
  response is a status code with a body, and every early \<^verbatim>\<open>return\<close> of a handler is a
  branch of its definition. Strings are byte lists; the library functions of Go that the
  handlers call are written out for ASCII input.
\<close>

subsection \<open>Go library functions on ASCII strings\<close>

text \<open>\<^verbatim>\<open>strings.TrimSpace\<close>: the ASCII white space of \<^verbatim>\<open>unicode.IsSpace\<close> is
  tab, line feed, vertical tab, form feed, carriage return and space.\<close>

definition isSpace :: "char \<Rightarrow> bool" where
  "isSpace c = (c = CHR 0x09 \<or> c = CHR 0x0A \<or> c = CHR 0x0B \<or> c = CHR 0x0C \<or> c = CHR 0x0D \<or> c = CHR '' '')"

definition TrimSpace :: "string \<Rightarrow> string" where
  "TrimSpace s = rev (dropWhile isSpace (rev (dropWhile isSpace s)))"

definition isUpper :: "char \<Rightarrow> bool" where
  "isUpper c = (65 \<le> (of_char c :: nat) \<and> (of_char c :: nat) \<le> 90)"

definition isLower :: "char \<Rightarrow> bool" where
  "isLower c = (97 \<le> (of_char c :: nat) \<and> (of_char c :: nat) \<le> 122)"

definition isDigit :: "char \<Rightarrow> bool" where
  "isDigit c = (48 \<le> (of_char c :: nat) \<and> (of_char c :: nat) \<le> 57)"

definition toLowerChar :: "char \<Rightarrow> char" where
  "toLowerChar c = (if isUpper c then char_of ((of_char c :: nat) + 32) else c)"

definition toTitleChar :: "char \<Rightarrow> char" where
  "toTitleChar c = (if isLower c then char_of ((of_char c :: nat) - 32) else c)"

definition ToLower :: "string \<Rightarrow> string" where
  "ToLower s = map toLowerChar s"

text \<open>\<^verbatim>\<open>strings.Title\<close> maps the first letter of every word to title case. A word starts
  after a separator; \<^verbatim>\<open>isSeparator\<close> holds of every ASCII byte that is not a letter, a
  digit or the underscore, and the scan starts as if after a space. Bytes from 0x80 on
  belong to runes outside ASCII and are kept as they are.\<close>

definition isSeparator :: "char \<Rightarrow> bool" where
  "isSeparator c = ((of_char c :: nat) \<le> 0x7F \<and> \<not> isDigit c \<and> \<not> isLower c \<and> \<not> isUpper c \<and> c \<noteq> CHR ''_'')"

fun titleFrom :: "char \<Rightarrow> string \<Rightarrow> string" where
  "titleFrom prev [] = []"
| "titleFrom prev (r # rs) = (if isSeparator prev then toTitleChar r else r) # titleFrom r rs"

definition Title :: "string \<Rightarrow> string" where
  "Title s = titleFrom (CHR '' '') s"

text \<open>\<^verbatim>\<open>strconv.ParseUint(s, 10, 64)\<close>: one or more decimal digits, no sign, and a
  value below \<open>2 ^ 64\<close>; anything else is an error. \<^verbatim>\<open>strconv.Atoi\<close> takes an optional
  sign before the digits and a value in the range of a 64-bit \<^verbatim>\<open>int\<close>.\<close>

definition digitVal :: "char \<Rightarrow> nat" where
  "digitVal c = (of_char c :: nat) - 48"

definition decimal :: "string \<Rightarrow> nat" where
  "decimal ds = foldl (\<lambda>n c. 10 * n + digitVal c) 0 ds"

definition ParseUint :: "string \<Rightarrow> nat option" where
  "ParseUint s =
     (if s = [] \<or> \<not> list_all isDigit s then None
      else if decimal s < 2 ^ 64 then Some (decimal s) else None)"

definition Atoi :: "string \<Rightarrow> int option" where
  "Atoi s =
     (let (neg, ds) = (case s of
                         c # rest \<Rightarrow> if c = CHR ''-'' then (True, rest)
                                     else if c = CHR ''+'' then (False, rest) else (False, s)
                       | [] \<Rightarrow> (False, s))
      in if ds = [] \<or> \<not> list_all isDigit ds then None
         else let v = (if neg then - int (decimal ds) else int (decimal ds))
              in if - (2 ^ 63) \<le> v \<and> v < 2 ^ 63 then Some v else None)"

subsection \<open>Instants and the two date layouts\<close>

text \<open>A \<^verbatim>\<open>time.Time\<close> is modelled by the number of nanoseconds since
  0001-01-01T00:00:00 UTC, the zero value of the type, so \<^verbatim>\<open>t.IsZero()\<close> is \<open>t = 0\<close>,
  \<^verbatim>\<open>t.Add(d)\<close> is \<open>t + d\<close> and the comparisons of SQL on a timestamp column are those of
  \<open>int\<close>. The calendar is the proleptic Gregorian one of \<^verbatim>\<open>time.Date\<close>. The store
  is taken to keep an instant as it is given.\<close>

type_synonym Time = int

abbreviation Second :: int where "Second \<equiv> 1000000000"
abbreviation Minute :: int where "Minute \<equiv> 60 * Second"
abbreviation Hour :: int where "Hour \<equiv> 60 * Minute"

definition isLeap :: "int \<Rightarrow> bool" where
  "isLeap year = (year mod 4 = 0 \<and> (year mod 100 \<noteq> 0 \<or> year mod 400 = 0))"

definition daysIn :: "int \<Rightarrow> int \<Rightarrow> int" where
  "daysIn month year =
     (if month = 2 then (if isLeap year then 29 else 28)
      else if month = 4 \<or> month = 6 \<or> month = 9 \<or> month = 11 then 30 else 31)"

definition daysBefore :: "int \<Rightarrow> int" where
  "daysBefore month = [0, 31, 59, 90, 120, 151, 181, 212, 243, 273, 304, 334] ! nat (month - 1)"

definition daysSinceEpoch :: "int \<Rightarrow> int \<Rightarrow> int \<Rightarrow> int" where
  "daysSinceEpoch year month day =
     365 * (year - 1) + (year - 1) div 4 - (year - 1) div 100 + (year - 1) div 400
       + daysBefore month + (if isLeap year \<and> 2 < month then 1 else 0) + (day - 1)"

definition timeDate :: "int \<Rightarrow> int \<Rightarrow> int \<Rightarrow> int \<Rightarrow> int \<Rightarrow> int \<Rightarrow> int \<Rightarrow> Time" where
  "timeDate year month day hour minute sec nsec =
     daysSinceEpoch year month day * (24 * Hour) + hour * Hour + minute * Minute + sec * Second + nsec"

text \<open>\<^verbatim>\<open>time.Parse\<close> for the two layouts the handlers use, in their strict forms: for
  \<^verbatim>\<open>time.RFC3339\<close> the form \<^verbatim>\<open>YYYY-MM-DDTHH:MM:SS[.fraction](Z|+HH:MM|-HH:MM)\<close> that the
  library's \<^verbatim>\<open>parseRFC3339\<close> reads (at most nine digits of the fraction count), and for
  \<^verbatim>\<open>"2006-01-02"\<close> the form \<^verbatim>\<open>YYYY-MM-DD\<close>. The laxer spellings that the library's general
  parser also takes for RFC3339 (a one-digit hour, an offset of 24 hours) are not
  modelled: they are errors here.\<close>

definition slice :: "string \<Rightarrow> nat \<Rightarrow> nat \<Rightarrow> string" where
  "slice s i j = take (j - i) (drop i s)"

definition parseUintIn :: "string \<Rightarrow> int \<Rightarrow> int \<Rightarrow> int option" where
  "parseUintIn ds lo hi =
     (if ds \<noteq> [] \<and> list_all isDigit ds \<and> lo \<le> int (decimal ds) \<and> int (decimal ds) \<le> hi
      then Some (int (decimal ds)) else None)"

definition parseNanoseconds :: "string \<Rightarrow> int" where
  "parseNanoseconds frac = int (decimal (take 9 frac)) * 10 ^ (9 - length (take 9 frac))"

definition parseZone :: "string \<Rightarrow> int option" where
  "parseZone z =
     (if z = ''Z'' then Some 0
      else if length z = 6 \<and> (z ! 0 = CHR ''-'' \<or> z ! 0 = CHR ''+'') \<and> z ! 3 = CHR '':'' then
        do {
          hr \<leftarrow> parseUintIn (slice z 1 3) 0 23;
          mm \<leftarrow> parseUintIn (slice z 4 6) 0 59;
          Some ((if z ! 0 = CHR ''-'' then - 1 else 1) * ((hr * 60 + mm) * 60) * Second)
        }
      else None)"

definition parseRFC3339 :: "string \<Rightarrow> Time option" where
  "parseRFC3339 s =
     (if length s < 19 then None
      else do {
        year \<leftarrow> parseUintIn (slice s 0 4) 0 9999;
        month \<leftarrow> parseUintIn (slice s 5 7) 1 12;
        day \<leftarrow> parseUintIn (slice s 8 10) 1 (daysIn month year);
        hour \<leftarrow> parseUintIn (slice s 11 13) 0 23;
        minute \<leftarrow> parseUintIn (slice s 14 16) 0 59;
        sec \<leftarrow> parseUintIn (slice s 17 19) 0 59;
        if \<not> (s ! 4 = CHR ''-'' \<and> s ! 7 = CHR ''-'' \<and> s ! 10 = CHR ''T'' \<and> s ! 13 = CHR '':'' \<and> s ! 16 = CHR '':'')
        then None
        else
          let rest = drop 19 s;
              frac = (case rest of
                        c # d # _ \<Rightarrow> if c = CHR ''.'' \<and> isDigit d then takeWhile isDigit (tl rest) else []
                      | _ \<Rightarrow> []);
              zone = (if frac = [] then rest else drop (Suc (length frac)) rest)
          in do {
            off \<leftarrow> parseZone zone;
            Some (timeDate year month day hour minute sec (parseNanoseconds frac) - off)
          }
      })"

definition parseDateOnly :: "string \<Rightarrow> Time option" where
  "parseDateOnly s =
     (if length s \<noteq> 10 \<or> \<not> (s ! 4 = CHR ''-'' \<and> s ! 7 = CHR ''-'') then None
      else do {
        year \<leftarrow> parseUintIn (slice s 0 4) 0 9999;
        month \<leftarrow> parseUintIn (slice s 5 7) 1 12;
        day \<leftarrow> parseUintIn (slice s 8 10) 1 (daysIn month year);
        Some (timeDate year month day 0 0 0 0)
      })"

text \<open>The parse both \<^verbatim>\<open>CreateEvent\<close> and \<^verbatim>\<open>SearchHandler\<close> do: RFC3339 first, the
  calendar date if that fails.\<close>

definition parseEitherLayout :: "string \<Rightarrow> Time option" where
  "parseEitherLayout s =
     (case parseRFC3339 s of Some t \<Rightarrow> Some t | None \<Rightarrow> parseDateOnly s)"

subsection \<open>The records of models.go and the store\<close>

text \<open>The four models, without the \<^verbatim>\<open>CreatedAt\<close> and \<^verbatim>\<open>UpdatedAt\<close> stamps (they depend on
  the clock and no handler reads them) and without the association fields that are
  filled by \<^verbatim>\<open>Preload\<close>. An identifier is a \<^verbatim>\<open>uint\<close>.\<close>

record User =
  user_ID :: nat
  user_Email :: string
  user_Password :: string

record Event =
  ev_ID :: nat
  ev_Title :: string
  ev_Description :: string
  ev_Location :: string
  ev_Date :: Time
  ev_OrganizerID :: nat

record Task =
  task_ID :: nat
  task_EventID :: nat
  task_Title :: string
  task_Description :: string

record EventAttendee =
  att_ID :: nat
  att_EventID :: nat
  att_UserID :: nat
  att_Role :: string
  att_Status :: string

text \<open>The store behind \<^verbatim>\<open>DB\<close>: each table is the list of its rows in the order of their
  primary keys, the order in which \<^verbatim>\<open>First\<close> scans a table, and each table with a serial
  primary key has the counter that gives the next key. A key, once given, is not given
  again.\<close>

record Store =
  users :: "User list"
  events :: "Event list"
  tasks :: "Task list"
  event_attendees :: "EventAttendee list"
  next_event_id :: nat
  next_task_id :: nat
  next_attendee_id :: nat

text \<open>A call to the store can fail for a reason of its own (a lost connection, a
  constraint of the schema that the row does not meet).
  A handler takes the list \<open>fl\<close> of these faults: the call at site \<open>k\<close> of the handler,
  counted in the order of the text, fails when \<open>fl\<close> holds \<open>True\<close> at \<open>k\<close>; the empty list
  is a store that answers every call.\<close>

definition fails :: "bool list \<Rightarrow> nat \<Rightarrow> bool" where
  "fails fl k = (k < length fl \<and> fl ! k)"

datatype 'a dbresult = Found 'a | ErrRecordNotFound | DBError

definition dbFirst :: "bool \<Rightarrow> ('a \<Rightarrow> bool) \<Rightarrow> 'a list \<Rightarrow> 'a dbresult" where
  "dbFirst fault cond rows =
     (if fault then DBError
      else case find cond rows of Some r \<Rightarrow> Found r | None \<Rightarrow> ErrRecordNotFound)"

definition createEvent :: "Event \<Rightarrow> Store \<Rightarrow> Event \<times> Store" where
  "createEvent ev s =
     (let ev' = ev\<lparr>ev_ID := next_event_id s\<rparr>
      in (ev', s\<lparr>events := events s @ [ev'], next_event_id := Suc (next_event_id s)\<rparr>))"

definition createTask :: "Task \<Rightarrow> Store \<Rightarrow> Task \<times> Store" where
  "createTask t s =
     (let t' = t\<lparr>task_ID := next_task_id s\<rparr>
      in (t', s\<lparr>tasks := tasks s @ [t'], next_task_id := Suc (next_task_id s)\<rparr>))"

definition createAttendee :: "EventAttendee \<Rightarrow> Store \<Rightarrow> EventAttendee \<times> Store" where
  "createAttendee a s =
     (let a' = a\<lparr>att_ID := next_attendee_id s\<rparr>
      in (a', s\<lparr>event_attendees := event_attendees s @ [a'],
                 next_attendee_id := Suc (next_attendee_id s)\<rparr>))"

text \<open>\<^verbatim>\<open>DB.Save\<close> of a row that carries its primary key writes all its fields to the row
  with that key, and inserts the row when the table has none.\<close>

definition saveAttendee :: "EventAttendee \<Rightarrow> Store \<Rightarrow> Store" where
  "saveAttendee a s =
     (if list_ex (\<lambda>r. att_ID r = att_ID a) (event_attendees s)
      then s\<lparr>event_attendees := map (\<lambda>r. if att_ID r = att_ID a then a else r) (event_attendees s)\<rparr>
      else s\<lparr>event_attendees := event_attendees s @ [a]\<rparr>)"

text \<open>\<^verbatim>\<open>Where(...).FirstOrCreate(&org)\<close>: the query for a row that meets the condition,
  and the insert when there is none. Either call can fail; the handler drops the error.\<close>

definition firstOrCreateAttendee ::
  "bool \<Rightarrow> bool \<Rightarrow> (EventAttendee \<Rightarrow> bool) \<Rightarrow> EventAttendee \<Rightarrow> Store \<Rightarrow> Store" where
  "firstOrCreateAttendee queryFault insertFault cond a s =
     (case dbFirst queryFault cond (event_attendees s) of
        Found r \<Rightarrow> s
      | DBError \<Rightarrow> s
      | ErrRecordNotFound \<Rightarrow> if insertFault then s else snd (createAttendee a s))"

text \<open>\<^verbatim>\<open>DB.Transaction(fn)\<close>: \<open>fn\<close> works on the transaction's view of the store; when it
  returns an error, or the commit fails, nothing of it takes effect.\<close>

definition Transaction :: "bool \<Rightarrow> (Store \<Rightarrow> Store option) \<Rightarrow> Store \<Rightarrow> bool \<times> Store" where
  "Transaction commitFault fn s =
     (case fn s of
        None \<Rightarrow> (False, s)
      | Some tx \<Rightarrow> if commitFault then (False, s) else (True, tx))"

subsection \<open>Requests and responses\<close>

datatype result = EventResult Event "Task list" | TaskResult Task Event

datatype body =
    ErrorJSON string
  | MessageJSON string
  | EventJSON Event
  | TaskJSON Task
  | AttendeeJSON EventAttendee
  | TasksJSON "Task list"
  | ResultsJSON "result list"

type_synonym response = "nat \<times> body"

abbreviation StatusOK :: nat where "StatusOK \<equiv> 200"
abbreviation StatusCreated :: nat where "StatusCreated \<equiv> 201"
abbreviation StatusBadRequest :: nat where "StatusBadRequest \<equiv> 400"
abbreviation StatusUnauthorized :: nat where "StatusUnauthorized \<equiv> 401"
abbreviation StatusForbidden :: nat where "StatusForbidden \<equiv> 403"
abbreviation StatusNotFound :: nat where "StatusNotFound \<equiv> 404"
abbreviation StatusInternalServerError :: nat where "StatusInternalServerError \<equiv> 500"

text \<open>\<^verbatim>\<open>jsonError\<close>. Where the handler appends \<^verbatim>\<open>err.Error()\<close> to a message, the text of
  the library's error is not modelled and the message ends at the colon.\<close>

definition jsonError :: "nat \<Rightarrow> string \<Rightarrow> response" where
  "jsonError code msg = (code, ErrorJSON msg)"

text \<open>What \<^verbatim>\<open>c.Get("user_id")\<close> can hold. \<^verbatim>\<open>AuthMiddleware\<close> stores a \<^verbatim>\<open>uint\<close>; the
  \<^verbatim>\<open>float64\<close> case of the type switch is covered by \<open>CtxOther\<close> only in so far as no
  caller of this program stores one.\<close>

datatype ctxval = CtxUint nat | CtxInt int | CtxOther

definition getUserIDFromContext :: "ctxval option \<Rightarrow> nat option" where
  "getUserIDFromContext c =
     (case c of
        None \<Rightarrow> None
      | Some (CtxUint v) \<Rightarrow> Some v
      | Some (CtxInt v) \<Rightarrow> Some (nat (v mod 2 ^ 64))
      | Some CtxOther \<Rightarrow> None)"

text \<open>The bodies, as \<^verbatim>\<open>ShouldBindJSON\<close> gives them: \<open>None\<close> is a body that is not the
  JSON of the struct; a field tagged \<^verbatim>\<open>binding:"required"\<close> must not hold the zero value of
  its type.\<close>

record CreateEventRequest =
  cer_Title :: string
  cer_Description :: string
  cer_Location :: string
  cer_Date :: string

record CreateTaskRequest =
  ctr_Title :: string
  ctr_Description :: string

record SearchRequest =
  sr_Keyword :: string
  sr_StartDate :: string
  sr_EndDate :: string
  sr_Role :: string
  sr_Type :: string

definition bindCreateEvent :: "CreateEventRequest option \<Rightarrow> CreateEventRequest option" where
  "bindCreateEvent b =
     (case b of None \<Rightarrow> None
      | Some r \<Rightarrow> if cer_Title r = [] \<or> cer_Date r = [] then None else Some r)"

definition bindInvite :: "nat option \<Rightarrow> nat option" where
  "bindInvite b = (case b of None \<Rightarrow> None | Some uid \<Rightarrow> if uid = 0 then None else Some uid)"

definition bindAttendance :: "string option \<Rightarrow> string option" where
  "bindAttendance b = (case b of None \<Rightarrow> None | Some st \<Rightarrow> if st = [] then None else Some st)"

definition bindCreateTask :: "CreateTaskRequest option \<Rightarrow> CreateTaskRequest option" where
  "bindCreateTask b =
     (case b of None \<Rightarrow> None | Some r \<Rightarrow> if ctr_Title r = [] then None else Some r)"

subsection \<open>Events\<close>

text \<open>\<^verbatim>\<open>CreateEvent\<close>. Sites of store calls: 0 the insert of the event, 1 and 2 the query
  and the insert of \<^verbatim>\<open>FirstOrCreate\<close> for the organizer's row.\<close>

definition CreateEvent ::
  "ctxval option \<Rightarrow> CreateEventRequest option \<Rightarrow> bool list \<Rightarrow> Store \<Rightarrow> response \<times> Store" where
  "CreateEvent c body fl s =
     (case getUserIDFromContext c of
        None \<Rightarrow> (jsonError StatusUnauthorized ''unauthorized'', s)
      | Some userID \<Rightarrow>
     (case bindCreateEvent body of
        None \<Rightarrow> (jsonError StatusBadRequest ''invalid request: '', s)
      | Some b \<Rightarrow>
     (case parseEitherLayout (cer_Date b) of
        None \<Rightarrow> (jsonError StatusBadRequest ''invalid date format (use RFC3339 or YYYY-MM-DD)'', s)
      | Some eventDate \<Rightarrow>
          if fails fl 0 then (jsonError StatusInternalServerError ''could not create event: '', s)
          else
            let (ev, s1) = createEvent
                  \<lparr>ev_ID = 0, ev_Title = TrimSpace (cer_Title b), ev_Description = cer_Description b,
                   ev_Location = cer_Location b, ev_Date = eventDate, ev_OrganizerID = userID\<rparr> s;
                org = \<lparr>att_ID = 0, att_EventID = ev_ID ev, att_UserID = userID,
                       att_Role = ''organizer'', att_Status = []\<rparr>;
                s2 = firstOrCreateAttendee (fails fl 1) (fails fl 2)
                       (\<lambda>a. att_EventID a = ev_ID ev \<and> att_UserID a = userID) org s1
            in ((StatusCreated, EventJSON ev), s2))))"

text \<open>The function that \<^verbatim>\<open>DeleteEvent\<close> hands to \<^verbatim>\<open>DB.Transaction\<close>: the attendee links,
  the tasks, the event, each delete returning its error at once (sites 1, 2 and 3).\<close>

definition deleteEventTx :: "nat \<Rightarrow> bool list \<Rightarrow> Store \<Rightarrow> Store option" where
  "deleteEventTx evID fl tx =
     (if fails fl 1 then None
      else
        let tx1 = tx\<lparr>event_attendees := filter (\<lambda>a. att_EventID a \<noteq> evID) (event_attendees tx)\<rparr>
        in if fails fl 2 then None
           else
             let tx2 = tx1\<lparr>tasks := filter (\<lambda>t. task_EventID t \<noteq> evID) (tasks tx1)\<rparr>
             in if fails fl 3 then None
                else Some (tx2\<lparr>events := filter (\<lambda>e. ev_ID e \<noteq> evID) (events tx2)\<rparr>))"

text \<open>\<^verbatim>\<open>DeleteEvent\<close>. Site 0 is the lookup of the event, site 4 the commit.\<close>

definition DeleteEvent ::
  "ctxval option \<Rightarrow> string \<Rightarrow> bool list \<Rightarrow> Store \<Rightarrow> response \<times> Store" where
  "DeleteEvent c idParam fl s =
     (case getUserIDFromContext c of
        None \<Rightarrow> (jsonError StatusUnauthorized ''unauthorized'', s)
      | Some userID \<Rightarrow>
          if idParam = [] then (jsonError StatusBadRequest ''missing event id'', s)
          else
     (case Atoi idParam of
        None \<Rightarrow> (jsonError StatusBadRequest ''invalid event id'', s)
      | Some i \<Rightarrow>
     (case dbFirst (fails fl 0) (\<lambda>e. int (ev_ID e) = i) (events s) of
        ErrRecordNotFound \<Rightarrow> (jsonError StatusNotFound ''event not found'', s)
      | DBError \<Rightarrow> (jsonError StatusInternalServerError ''db error: '', s)
      | Found ev \<Rightarrow>
          if ev_OrganizerID ev \<noteq> userID
          then (jsonError StatusForbidden ''only organizer can delete the event'', s)
          else
            (case Transaction (fails fl 4) (deleteEventTx (ev_ID ev) fl) s of
               (False, s') \<Rightarrow> (jsonError StatusInternalServerError ''delete failed: '', s')
             | (True, s') \<Rightarrow> ((StatusOK, MessageJSON ''event deleted''), s')))))"

subsection \<open>Invitations\<close>

text \<open>\<^verbatim>\<open>InviteUser\<close>. Sites: 0 the lookup of the event, 1 the lookup of the invited
  user, 2 the query for an existing row of the pair, 3 the insert.\<close>

definition InviteUser ::
  "ctxval option \<Rightarrow> string \<Rightarrow> nat option \<Rightarrow> bool list \<Rightarrow> Store \<Rightarrow> response \<times> Store" where
  "InviteUser c idParam body fl s =
     (case getUserIDFromContext c of
        None \<Rightarrow> (jsonError StatusUnauthorized ''unauthorized'', s)
      | Some userID \<Rightarrow>
     (case ParseUint idParam of
        None \<Rightarrow> (jsonError StatusBadRequest ''invalid event id'', s)
      | Some eventID \<Rightarrow>
     (case bindInvite body of
        None \<Rightarrow> (jsonError StatusBadRequest ''invalid body: '', s)
      | Some bodyUserID \<Rightarrow>
     (case dbFirst (fails fl 0) (\<lambda>e. ev_ID e = eventID) (events s) of
        ErrRecordNotFound \<Rightarrow> (jsonError StatusNotFound ''event not found'', s)
      | DBError \<Rightarrow> (jsonError StatusInternalServerError ''db error: '', s)
      | Found ev \<Rightarrow>
          if ev_OrganizerID ev \<noteq> userID
          then (jsonError StatusForbidden ''only organizer can invite others'', s)
          else
     (case dbFirst (fails fl 1) (\<lambda>u. user_ID u = bodyUserID) (users s) of
        ErrRecordNotFound \<Rightarrow> (jsonError StatusNotFound ''invited user not found'', s)
      | DBError \<Rightarrow> (jsonError StatusInternalServerError ''db error: '', s)
      | Found invitee \<Rightarrow>
          if user_ID invitee = ev_OrganizerID ev
          then (jsonError StatusBadRequest ''user is already organizer'', s)
          else
     (case dbFirst (fails fl 2)
             (\<lambda>a. att_EventID a = eventID \<and> att_UserID a = user_ID invitee) (event_attendees s) of
        Found existing \<Rightarrow> ((StatusOK, MessageJSON ''user already invited or participant''), s)
      | DBError \<Rightarrow> (jsonError StatusInternalServerError ''db error: '', s)
      | ErrRecordNotFound \<Rightarrow>
          if fails fl 3
          then (jsonError StatusInternalServerError ''could not create invitation: '', s)
          else
            let (att, s') = createAttendee
                  \<lparr>att_ID = 0, att_EventID = eventID, att_UserID = user_ID invitee,
                   att_Role = ''attendee'', att_Status = []\<rparr> s
            in ((StatusOK, MessageJSON ''user invited''), s')))))))"

subsection \<open>Attendance\<close>

definition normalizeStatus :: "string \<Rightarrow> string" where
  "normalizeStatus st = Title (ToLower (TrimSpace st))"

text \<open>\<^verbatim>\<open>SetAttendance\<close>. Sites: 0 the lookup of the event, 1 the query for the caller's
  row, 2 the insert or the save.\<close>

definition SetAttendance ::
  "ctxval option \<Rightarrow> string \<Rightarrow> string option \<Rightarrow> bool list \<Rightarrow> Store \<Rightarrow> response \<times> Store" where
  "SetAttendance c idParam body fl s =
     (case getUserIDFromContext c of
        None \<Rightarrow> (jsonError StatusUnauthorized ''unauthorized'', s)
      | Some userID \<Rightarrow>
     (case ParseUint idParam of
        None \<Rightarrow> (jsonError StatusBadRequest ''invalid event id'', s)
      | Some eventID \<Rightarrow>
     (case bindAttendance body of
        None \<Rightarrow> (jsonError StatusBadRequest ''invalid body: '', s)
      | Some bodyStatus \<Rightarrow>
          let normalized = normalizeStatus bodyStatus in
          if normalized \<noteq> ''Going'' \<and> normalized \<noteq> ''Maybe'' \<and> normalized \<noteq> ''Not Going''
          then (jsonError StatusBadRequest ''status must be one of: Going, Maybe, Not Going'', s)
          else
     (case dbFirst (fails fl 0) (\<lambda>e. ev_ID e = eventID) (events s) of
        ErrRecordNotFound \<Rightarrow> (jsonError StatusNotFound ''event not found'', s)
      | DBError \<Rightarrow> (jsonError StatusInternalServerError ''db error: '', s)
      | Found ev \<Rightarrow>
     (case dbFirst (fails fl 1)
             (\<lambda>a. att_EventID a = eventID \<and> att_UserID a = userID) (event_attendees s) of
        ErrRecordNotFound \<Rightarrow>
          if fails fl 2
          then (jsonError StatusInternalServerError ''could not set attendance: '', s)
          else
            let (att, s') = createAttendee
                  \<lparr>att_ID = 0, att_EventID = eventID, att_UserID = userID,
                   att_Role = ''attendee'', att_Status = normalized\<rparr> s
            in ((StatusOK, AttendeeJSON att), s')
      | DBError \<Rightarrow> (jsonError StatusInternalServerError ''db error: '', s)
      | Found att0 \<Rightarrow>
          let att = att0\<lparr>att_Status := normalized\<rparr> in
          if fails fl 2
          then (jsonError StatusInternalServerError ''could not update status: '', s)
          else ((StatusOK, AttendeeJSON att), saveAttendee att s))))))"

subsection \<open>Tasks\<close>

text \<open>\<^verbatim>\<open>CreateTask\<close>. Sites: 0 the lookup of the event, 1 the insert.\<close>

definition CreateTask ::
  "ctxval option \<Rightarrow> string \<Rightarrow> CreateTaskRequest option \<Rightarrow> bool list \<Rightarrow> Store \<Rightarrow> response \<times> Store" where
  "CreateTask c idParam body fl s =
     (case getUserIDFromContext c of
        None \<Rightarrow> (jsonError StatusUnauthorized ''unauthorized'', s)
      | Some userID \<Rightarrow>
     (case ParseUint idParam of
        None \<Rightarrow> (jsonError StatusBadRequest ''invalid event id'', s)
      | Some eventID \<Rightarrow>
     (case dbFirst (fails fl 0) (\<lambda>e. ev_ID e = eventID) (events s) of
        ErrRecordNotFound \<Rightarrow> (jsonError StatusNotFound ''event not found'', s)
      | DBError \<Rightarrow> (jsonError StatusInternalServerError ''db error: '', s)
      | Found ev \<Rightarrow>
          if ev_OrganizerID ev \<noteq> userID
          then (jsonError StatusForbidden ''only organizer can create tasks'', s)
          else
     (case bindCreateTask body of
        None \<Rightarrow> (jsonError StatusBadRequest ''invalid body: '', s)
      | Some b \<Rightarrow>
          if fails fl 1
          then (jsonError StatusInternalServerError ''could not create task: '', s)
          else
            let (task, s') = createTask
                  \<lparr>task_ID = 0, task_EventID = eventID, task_Title = TrimSpace (ctr_Title b),
                   task_Description = ctr_Description b\<rparr> s
            in ((StatusCreated, TaskJSON task), s')))))"

text \<open>\<^verbatim>\<open>GetTasksByEvent\<close> reads the path parameter and the tasks table only (site 0).\<close>

definition GetTasksByEvent :: "string \<Rightarrow> bool list \<Rightarrow> Store \<Rightarrow> response" where
  "GetTasksByEvent idParam fl s =
     (case ParseUint idParam of
        None \<Rightarrow> jsonError StatusBadRequest ''invalid event id''
      | Some eventID \<Rightarrow>
          if fails fl 0 then jsonError StatusInternalServerError ''db error: ''
          else (StatusOK, TasksJSON (filter (\<lambda>t. task_EventID t = eventID) (tasks s))))"

subsection \<open>Search\<close>

text \<open>The \<^verbatim>\<open>ILIKE\<close> of the store on ASCII text: in a pattern \<^verbatim>\<open>%\<close> stands for any run of
  characters, \<^verbatim>\<open>_\<close> for any one character, a backslash takes the next character
  literally, and letters match without regard to case. The handler builds the pattern as
  \<^verbatim>\<open>"%" + keyword + "%"\<close> and does not escape the keyword.\<close>

fun likeMatch :: "string \<Rightarrow> string \<Rightarrow> bool" where
  "likeMatch [] s = (s = [])"
| "likeMatch (p # ps) s =
     (if p = CHR ''%'' then
        (likeMatch ps s \<or> (case s of [] \<Rightarrow> False | c # s' \<Rightarrow> likeMatch (p # ps) s'))
      else if p = CHR ''_'' then
        (case s of [] \<Rightarrow> False | c # s' \<Rightarrow> likeMatch ps s')
      else if p = CHR 0x5C then
        (case ps of [] \<Rightarrow> False
         | q # qs \<Rightarrow> (case s of [] \<Rightarrow> False | c # s' \<Rightarrow> c = q \<and> likeMatch qs s'))
      else
        (case s of [] \<Rightarrow> False | c # s' \<Rightarrow> c = p \<and> likeMatch ps s'))"

definition ILIKE :: "string \<Rightarrow> string \<Rightarrow> bool" where
  "ILIKE subject pat = likeMatch (ToLower pat) (ToLower subject)"

text \<open>The bounds of the date range; the zero instant stands for a bound that was not
  given, as in the handler, and \<open>None\<close> for a text that neither layout parses. The end
  bound is moved by 23h59m59s after either parse.\<close>

definition searchStart :: "SearchRequest \<Rightarrow> Time option" where
  "searchStart req =
     (if sr_StartDate req = [] then Some 0 else parseEitherLayout (sr_StartDate req))"

definition searchEnd :: "SearchRequest \<Rightarrow> Time option" where
  "searchEnd req =
     (if sr_EndDate req = [] then Some 0
      else case parseEitherLayout (sr_EndDate req) of
             None \<Rightarrow> None
           | Some e \<Rightarrow> Some (e + (23 * Hour + 59 * Minute + 59 * Second)))"

definition eventMatches :: "string \<Rightarrow> Time \<Rightarrow> Time \<Rightarrow> Event \<Rightarrow> bool" where
  "eventMatches keyword start end' e =
     (let kw = ''%'' @ keyword @ ''%'' in
      (keyword = [] \<or> ILIKE (ev_Title e) kw \<or> ILIKE (ev_Description e) kw)
      \<and> (start = 0 \<or> start \<le> ev_Date e)
      \<and> (end' = 0 \<or> ev_Date e \<le> end'))"

definition taskMatches :: "string \<Rightarrow> Time \<Rightarrow> Time \<Rightarrow> Task \<times> Event \<Rightarrow> bool" where
  "taskMatches keyword start end' te =
     (let kw = ''%'' @ keyword @ ''%''; t = fst te; e = snd te in
      (keyword = [] \<or> ILIKE (task_Title t) kw \<or> ILIKE (task_Description t) kw
         \<or> ILIKE (ev_Title e) kw \<or> ILIKE (ev_Description e) kw)
      \<and> (start = 0 \<or> start \<le> ev_Date e)
      \<and> (end' = 0 \<or> ev_Date e \<le> end'))"

text \<open>How many rows the role filter leaves of one event: with \<^verbatim>\<open>role=attendee\<close> the query
  joins \<^verbatim>\<open>event_attendees\<close>, which gives one row for each attendee row of the caller.\<close>

definition roleCount :: "string \<Rightarrow> nat \<Rightarrow> Store \<Rightarrow> Event \<Rightarrow> nat" where
  "roleCount role userID s e =
     (if role = [] then 1
      else if role = ''organizer'' then (if ev_OrganizerID e = userID then 1 else 0)
      else length (filter (\<lambda>a. att_EventID a = ev_ID e \<and> att_UserID a = userID
                               \<and> att_Role a = ''attendee'') (event_attendees s)))"

text \<open>The two queries. \<^verbatim>\<open>ORDER BY date asc\<close> is a sort on the date that keeps rows of
  equal date in table order (SQL leaves their order open).\<close>

definition queryEvents :: "nat \<Rightarrow> string \<Rightarrow> string \<Rightarrow> Time \<Rightarrow> Time \<Rightarrow> Store \<Rightarrow> Event list" where
  "queryEvents userID role keyword start end' s =
     sort_key ev_Date
       (concat (map (\<lambda>e. replicate (roleCount role userID s e) e)
          (filter (eventMatches keyword start end') (events s))))"

definition joinTasksEvents :: "Store \<Rightarrow> (Task \<times> Event) list" where
  "joinTasksEvents s =
     concat (map (\<lambda>t. map (\<lambda>e. (t, e)) (filter (\<lambda>e. ev_ID e = task_EventID t) (events s))) (tasks s))"

definition queryTasks :: "nat \<Rightarrow> string \<Rightarrow> string \<Rightarrow> Time \<Rightarrow> Time \<Rightarrow> Store \<Rightarrow> Task list" where
  "queryTasks userID role keyword start end' s =
     map fst
       (sort_key (\<lambda>te. ev_Date (snd te))
          (concat (map (\<lambda>te. replicate (roleCount role userID s (snd te)) te)
             (filter (taskMatches keyword start end') (joinTasksEvents s)))))"

text \<open>The loop that attaches the parent event to each task; a task whose lookup fails,
  for whatever reason, is skipped. The lookup of the task at position \<open>i\<close> is site
  \<open>2 + i\<close>.\<close>

fun attachEvents :: "bool list \<Rightarrow> nat \<Rightarrow> Store \<Rightarrow> Task list \<Rightarrow> result list" where
  "attachEvents fl k s [] = []"
| "attachEvents fl k s (t # ts) =
     (case dbFirst (fails fl k) (\<lambda>e. ev_ID e = task_EventID t) (events s) of
        Found ev \<Rightarrow> TaskResult t ev # attachEvents fl (Suc k) s ts
      | ErrRecordNotFound \<Rightarrow> attachEvents fl (Suc k) s ts
      | DBError \<Rightarrow> attachEvents fl (Suc k) s ts)"

definition searchEventsPart ::
  "nat \<Rightarrow> string \<Rightarrow> string \<Rightarrow> Time \<Rightarrow> Time \<Rightarrow> bool list \<Rightarrow> Store \<Rightarrow> response + result list" where
  "searchEventsPart userID role keyword start end' fl s =
     (if role \<noteq> [] \<and> role \<noteq> ''organizer'' \<and> role \<noteq> ''attendee''
      then Inl (jsonError StatusBadRequest (''role must be 'organizer' or 'attendee'' @ [CHR 0x27]))
      else if fails fl 0 then Inl (jsonError StatusInternalServerError ''db error: '')
      else Inr (map (\<lambda>e. EventResult e (filter (\<lambda>t. task_EventID t = ev_ID e) (tasks s)))
                  (queryEvents userID role keyword start end' s)))"

definition searchTasksPart ::
  "nat \<Rightarrow> string \<Rightarrow> string \<Rightarrow> Time \<Rightarrow> Time \<Rightarrow> bool list \<Rightarrow> Store \<Rightarrow> response + result list" where
  "searchTasksPart userID role keyword start end' fl s =
     (if role \<noteq> [] \<and> role \<noteq> ''organizer'' \<and> role \<noteq> ''attendee''
      then Inl (jsonError StatusBadRequest (''role must be 'organizer' or 'attendee'' @ [CHR 0x27]))
      else if fails fl 1 then Inl (jsonError StatusInternalServerError ''db error: '')
      else Inr (attachEvents fl 2 s (queryTasks userID role keyword start end' s)))"

text \<open>The type of results asked for, after the default.\<close>

definition searchType :: "SearchRequest \<Rightarrow> string" where
  "searchType req = (if sr_Type req = [] then ''both'' else sr_Type req)"

text \<open>\<^verbatim>\<open>SearchHandler\<close>, after the binding of the five text fields of the request (the
  handler ignores an error of the binding).\<close>

definition SearchHandler :: "ctxval option \<Rightarrow> SearchRequest \<Rightarrow> bool list \<Rightarrow> Store \<Rightarrow> response" where
  "SearchHandler c req fl s =
     (case getUserIDFromContext c of
        None \<Rightarrow> jsonError StatusUnauthorized ''unauthorized''
      | Some userID \<Rightarrow>
          let typ = searchType req in
     (case searchStart req of
        None \<Rightarrow> jsonError StatusBadRequest ''invalid start_date format''
      | Some start \<Rightarrow>
     (case searchEnd req of
        None \<Rightarrow> jsonError StatusBadRequest ''invalid end_date format''
      | Some end' \<Rightarrow>
          let keyword = TrimSpace (sr_Keyword req) in
     (case (if typ = ''both'' \<or> typ = ''event''
            then searchEventsPart userID (sr_Role req) keyword start end' fl s else Inr []) of
        Inl resp \<Rightarrow> resp
      | Inr eventResults \<Rightarrow>
     (case (if typ = ''both'' \<or> typ = ''task''
            then searchTasksPart userID (sr_Role req) keyword start end' fl s else Inr []) of
        Inl resp \<Rightarrow> resp
      | Inr taskResults \<Rightarrow> (StatusOK, ResultsJSON (eventResults @ taskResults)))))))"



subsection \<open>Sequences of requests\<close>

text \<open>The requests that change the store, each with the faults of its store calls, and
  the store that a sequence of them leaves. A store is reachable when it is
  \<open>run cs (emptyStore us)\<close> for a table \<open>us\<close> of users and a sequence \<open>cs\<close>.\<close>

datatype call =
    CallCreateEvent "ctxval option" "CreateEventRequest option" "bool list"
  | CallDeleteEvent "ctxval option" string "bool list"
  | CallInviteUser "ctxval option" string "nat option" "bool list"
  | CallSetAttendance "ctxval option" string "string option" "bool list"
  | CallCreateTask "ctxval option" string "CreateTaskRequest option" "bool list"

fun exec :: "call \<Rightarrow> Store \<Rightarrow> response \<times> Store" where
  "exec (CallCreateEvent c body fl) s = CreateEvent c body fl s"
| "exec (CallDeleteEvent c idParam fl) s = DeleteEvent c idParam fl s"
| "exec (CallInviteUser c idParam body fl) s = InviteUser c idParam body fl s"
| "exec (CallSetAttendance c idParam body fl) s = SetAttendance c idParam body fl s"
| "exec (CallCreateTask c idParam body fl) s = CreateTask c idParam body fl s"

definition run :: "call list \<Rightarrow> Store \<Rightarrow> Store" where
  "run cs s = foldl (\<lambda>s' c. snd (exec c s')) s cs"

definition emptyStore :: "User list \<Rightarrow> Store" where
  "emptyStore us =
     \<lparr>users = us, events = [], tasks = [], event_attendees = [],
      next_event_id = 1, next_task_id = 1, next_attendee_id = 1\<rparr>"

text \<open>A request whose write of the organizer's row is answered by the store: every
  request but a \<^verbatim>\<open>CreateEvent\<close> with a fault at site 1 or 2.\<close>

fun organizerWriteOk :: "call \<Rightarrow> bool" where
  "organizerWriteOk (CallCreateEvent c body fl) = (\<not> fails fl 1 \<and> \<not> fails fl 2)"
| "organizerWriteOk (CallDeleteEvent c idParam fl) = True"
| "organizerWriteOk (CallInviteUser c idParam body fl) = True"
| "organizerWriteOk (CallSetAttendance c idParam body fl) = True"
| "organizerWriteOk (CallCreateTask c idParam body fl) = True"

subsection \<open>What the primary keys and the handlers keep\<close>

text \<open>Keys are below the counters and not repeated, a pair of an event and a user has
  at most one attendee row, an attendee row refers to an event identifier that was given
  out, and a task refers to a stored event.\<close>

definition storeInv :: "Store \<Rightarrow> bool" where
  "storeInv s =
     ((\<forall>e \<in> set (events s). ev_ID e < next_event_id s)
      \<and> distinct (map ev_ID (events s))
      \<and> (\<forall>a \<in> set (event_attendees s). att_ID a < next_attendee_id s \<and> att_EventID a < next_event_id s)
      \<and> distinct (map att_ID (event_attendees s))
      \<and> distinct (map (\<lambda>a. (att_EventID a, att_UserID a)) (event_attendees s))
      \<and> (\<forall>t \<in> set (tasks s). task_EventID t \<in> ev_ID ` set (events s)))"

text \<open>The rows of an event that belong to its organizer, and what holds of them as long
  as the store answers the write of the organizer's row: every stored event has a row of
  its organizer with the role \<^verbatim>\<open>organizer\<close>, and every status is empty or one of the three
  values that \<^verbatim>\<open>SetAttendance\<close> accepts.\<close>

definition organizerRows :: "Store \<Rightarrow> Event \<Rightarrow> EventAttendee list" where
  "organizerRows s e =
     filter (\<lambda>a. att_EventID a = ev_ID e \<and> att_UserID a = ev_OrganizerID e) (event_attendees s)"

definition organizerInv :: "Store \<Rightarrow> bool" where
  "organizerInv s =
     ((\<forall>e \<in> set (events s). \<exists>a \<in> set (event_attendees s).
          att_EventID a = ev_ID e \<and> att_UserID a = ev_OrganizerID e \<and> att_Role a = ''organizer'')
      \<and> (\<forall>a \<in> set (event_attendees s). att_Status a \<in> {[], ''Going'', ''Maybe'', ''Not Going''}))"

subsection \<open>A store for the examples\<close>

text \<open>Two users; the event 1 of user 1 with one task and user 2 as an attendee, and
  the event 2 of user 2. The dates are 2024-06-01T00:00:00Z and 2024-06-02T00:00:01Z.\<close>

definition demoStore :: Store where
  "demoStore =
     \<lparr>users = [\<lparr>user_ID = 1, user_Email = ''ann@example.org'', user_Password = ''pw''\<rparr>,
               \<lparr>user_ID = 2, user_Email = ''bob@example.org'', user_Password = ''pw''\<rparr>],
      events = [\<lparr>ev_ID = 1, ev_Title = ''Offsite'', ev_Description = [], ev_Location = [],
                 ev_Date = 63852796800000000000, ev_OrganizerID = 1\<rparr>,
                \<lparr>ev_ID = 2, ev_Title = ''Party'', ev_Description = [], ev_Location = [],
                 ev_Date = 63852883201000000000, ev_OrganizerID = 2\<rparr>],
      tasks = [\<lparr>task_ID = 1, task_EventID = 1, task_Title = ''Book venue'', task_Description = []\<rparr>],
      event_attendees =
        [\<lparr>att_ID = 1, att_EventID = 1, att_UserID = 1, att_Role = ''organizer'', att_Status = []\<rparr>,
         \<lparr>att_ID = 2, att_EventID = 1, att_UserID = 2, att_Role = ''attendee'', att_Status = ''Not Going''\<rparr>,
         \<lparr>att_ID = 3, att_EventID = 2, att_UserID = 2, att_Role = ''organizer'', att_Status = []\<rparr>],
      next_event_id = 3, next_task_id = 2, next_attendee_id = 4\<rparr>"

text \<open>The requests that lead to this store from the store with the two users.\<close>

definition demoUsers :: "User list" where
  "demoUsers = [\<lparr>user_ID = 1, user_Email = ''ann@example.org'', user_Password = ''pw''\<rparr>,
                \<lparr>user_ID = 2, user_Email = ''bob@example.org'', user_Password = ''pw''\<rparr>]"

definition demoCalls :: "call list" where
  "demoCalls =
     [CallCreateEvent (Some (CtxUint 1))
        (Some \<lparr>cer_Title = ''Offsite'', cer_Description = [], cer_Location = [], cer_Date = ''2024-06-01''\<rparr>) [],
      CallCreateTask (Some (CtxUint 1)) ''1'' (Some \<lparr>ctr_Title = ''Book venue'', ctr_Description = []\<rparr>) [],
      CallInviteUser (Some (CtxUint 1)) ''1'' (Some 2) [],
      CallSetAttendance (Some (CtxUint 2)) ''1'' (Some ''not going'') [],
      CallCreateEvent (Some (CtxUint 2))
        (Some \<lparr>cer_Title = ''Party'', cer_Description = [], cer_Location = [], cer_Date = ''2024-06-02T00:00:01Z''\<rparr>) []]"

section \<open>Properties\<close>

subsection \<open>Evaluation\<close>

lemmas string_eval = TrimSpace_def isSpace_def Title_def ToLower_def toLowerChar_def toTitleChar_def
  isSeparator_def isUpper_def isLower_def isDigit_def char_of_eq_iff normalizeStatus_def

lemmas number_eval = ParseUint_def Atoi_def decimal_def digitVal_def isDigit_def

lemmas time_eval = parseRFC3339_def parseDateOnly_def parseZone_def parseUintIn_def slice_def
  parseNanoseconds_def timeDate_def daysSinceEpoch_def daysBefore_def daysIn_def isLeap_def
  parseEitherLayout_def decimal_def digitVal_def isDigit_def

lemmas store_eval = fails_def dbFirst_def createEvent_def createTask_def createAttendee_def
  saveAttendee_def firstOrCreateAttendee_def Transaction_def jsonError_def getUserIDFromContext_def
  bindCreateEvent_def bindInvite_def bindAttendance_def bindCreateTask_def Let_def

lemma parse_demo_dates:
  "parseEitherLayout ''2024-06-01'' = Some 63852796800000000000"
  "parseEitherLayout ''2024-06-02T00:00:01Z'' = Some 63852883201000000000"
  by (simp_all add: time_eval)

lemma ParseUint_1: "ParseUint ''1'' = Some 1"
  by (simp add: number_eval)

lemma demoStore_reachable: "run demoCalls (emptyStore demoUsers) = demoStore"
  by (simp add: run_def demoCalls_def demoUsers_def emptyStore_def demoStore_def
      CreateEvent_def CreateTask_def InviteUser_def SetAttendance_def
      parse_demo_dates ParseUint_1 store_eval string_eval)

subsection \<open>The handlers keep the invariant of the store\<close>

lemma find_None_set: "find P xs = None \<longleftrightarrow> (\<forall>x \<in> set xs. \<not> P x)"
  by (auto simp add: find_None_iff)

lemma find_Some_set: "find P xs = Some x \<Longrightarrow> x \<in> set xs \<and> P x"
  by (auto simp add: find_Some_iff)

lemma distinct_map_eq: "distinct (map f xs) \<Longrightarrow> x \<in> set xs \<Longrightarrow> y \<in> set xs \<Longrightarrow> f x = f y \<Longrightarrow> x = y"
  by (auto simp add: distinct_map inj_on_def)

lemma storeInv_emptyStore: "storeInv (emptyStore us)"
  by (simp add: storeInv_def emptyStore_def)

lemma storeInv_createEvent: "storeInv s \<Longrightarrow> storeInv (snd (createEvent ev s))"
  by (auto simp add: storeInv_def createEvent_def Let_def less_Suc_eq)

lemma storeInv_createTask:
  "storeInv s \<Longrightarrow> task_EventID t \<in> ev_ID ` set (events s) \<Longrightarrow> storeInv (snd (createTask t s))"
  by (auto simp add: storeInv_def createTask_def Let_def)

lemma storeInv_createAttendee:
  assumes "storeInv s" and "att_EventID a < next_event_id s"
    and "\<forall>r \<in> set (event_attendees s). \<not> (att_EventID r = att_EventID a \<and> att_UserID r = att_UserID a)"
  shows "storeInv (snd (createAttendee a s))"
  using assms
  by (auto simp add: storeInv_def createAttendee_def Let_def less_Suc_eq)

lemma save_map_ident:
  assumes "distinct (map att_ID rows)" and "r \<in> set rows"
    and "\<And>x. f (x\<lparr>att_Status := st\<rparr>) = f x"
  shows "map f (map (\<lambda>x. if att_ID x = att_ID r then r\<lparr>att_Status := st\<rparr> else x) rows) = map f rows"
proof -
  have "f (if att_ID x = att_ID r then r\<lparr>att_Status := st\<rparr> else x) = f x" if "x \<in> set rows" for x
    using distinct_map_eq [OF assms(1) that assms(2)] assms(3) by auto
  then show ?thesis by (simp add: comp_def cong: map_cong)
qed

lemma storeInv_saveAttendee:
  assumes "storeInv s" and "r \<in> set (event_attendees s)"
  shows "storeInv (saveAttendee (r\<lparr>att_Status := st\<rparr>) s)"
proof -
  let ?g = "\<lambda>x. if att_ID x = att_ID r then r\<lparr>att_Status := st\<rparr> else x"
  have d: "distinct (map att_ID (event_attendees s))" using assms(1) by (simp add: storeInv_def)
  have ex: "list_ex (\<lambda>x. att_ID x = att_ID r) (event_attendees s)"
    using assms(2) by (auto simp add: list_ex_iff)
  have eq: "saveAttendee (r\<lparr>att_Status := st\<rparr>) s = s\<lparr>event_attendees := map ?g (event_attendees s)\<rparr>"
    using ex by (simp add: saveAttendee_def)
  have m1: "map att_ID (map ?g (event_attendees s)) = map att_ID (event_attendees s)"
    by (rule save_map_ident [OF d assms(2)]) simp
  have m2: "map (\<lambda>a. (att_EventID a, att_UserID a)) (map ?g (event_attendees s))
      = map (\<lambda>a. (att_EventID a, att_UserID a)) (event_attendees s)"
    by (rule save_map_ident [OF d assms(2)]) simp
  have m3: "\<forall>a \<in> set (map ?g (event_attendees s)). att_ID a < next_attendee_id s \<and> att_EventID a < next_event_id s"
    using assms by (auto simp add: storeInv_def)
  show ?thesis
    unfolding eq using assms(1) m3
    by (simp add: storeInv_def m1 m2 del: map_map set_map)
qed

lemma storeInv_deleteEventTx:
  assumes "storeInv s" and "deleteEventTx evID fl s = Some s'"
  shows "storeInv s'"
proof -
  have "s' = s\<lparr>event_attendees := filter (\<lambda>a. att_EventID a \<noteq> evID) (event_attendees s),
               tasks := filter (\<lambda>t. task_EventID t \<noteq> evID) (tasks s),
               events := filter (\<lambda>e. ev_ID e \<noteq> evID) (events s)\<rparr>"
    using assms(2) by (auto simp add: deleteEventTx_def Let_def split: if_splits)
  then show ?thesis
    using assms(1)
    by (auto simp add: storeInv_def distinct_map_filter)
qed


lemma storeInv_firstOrCreateAttendee:
  assumes "storeInv s" and "att_EventID a < next_event_id s"
  shows "storeInv (firstOrCreateAttendee qf insf
            (\<lambda>r. att_EventID r = att_EventID a \<and> att_UserID r = att_UserID a) a s)"
  using assms storeInv_createAttendee [of s a]
  by (auto simp add: firstOrCreateAttendee_def dbFirst_def find_None_set split: option.splits)

lemma storeInv_CreateEvent: "storeInv s \<Longrightarrow> storeInv (snd (CreateEvent c body fl s))"
proof -
  assume inv: "storeInv s"
  have step: "storeInv (firstOrCreateAttendee qf insf
      (\<lambda>a. att_EventID a = ev_ID (fst (createEvent ev s)) \<and> att_UserID a = uid)
      \<lparr>att_ID = 0, att_EventID = ev_ID (fst (createEvent ev s)), att_UserID = uid,
        att_Role = ''organizer'', att_Status = []\<rparr> (snd (createEvent ev s)))" for qf insf ev uid
    using storeInv_firstOrCreateAttendee [OF storeInv_createEvent [OF inv, of ev],
        of "\<lparr>att_ID = 0, att_EventID = ev_ID (fst (createEvent ev s)), att_UserID = uid,
        att_Role = ''organizer'', att_Status = []\<rparr>" qf insf]
    by (simp add: createEvent_def Let_def)
  show ?thesis
    using inv step
    by (simp add: CreateEvent_def jsonError_def Let_def split_beta split: option.splits)
qed

lemma storeInv_DeleteEvent: "storeInv s \<Longrightarrow> storeInv (snd (DeleteEvent c idParam fl s))"
  using storeInv_deleteEventTx
  by (auto simp add: DeleteEvent_def Transaction_def jsonError_def dbFirst_def
      split: option.splits dbresult.splits if_splits)

lemma storeInv_InviteUser: "storeInv s \<Longrightarrow> storeInv (snd (InviteUser c idParam body fl s))"
proof -
  assume inv: "storeInv s"
  have step: "storeInv (snd (createAttendee \<lparr>att_ID = 0, att_EventID = eid, att_UserID = u,
        att_Role = ''attendee'', att_Status = []\<rparr> s))"
    if "find (\<lambda>e. ev_ID e = eid) (events s) = Some ev"
      and "find (\<lambda>a. att_EventID a = eid \<and> att_UserID a = u) (event_attendees s) = None" for eid u ev
  proof (rule storeInv_createAttendee [OF inv])
    from that(1) have "ev \<in> set (events s)" "ev_ID ev = eid"
      using find_Some_set by fastforce+
    with inv show "att_EventID \<lparr>att_ID = 0, att_EventID = eid, att_UserID = u,
        att_Role = ''attendee'', att_Status = []\<rparr> < next_event_id s"
      by (auto simp add: storeInv_def)
  next
    from that(2) show "\<forall>r\<in>set (event_attendees s).
       \<not> (att_EventID r = att_EventID \<lparr>att_ID = 0, att_EventID = eid, att_UserID = u,
        att_Role = ''attendee'', att_Status = []\<rparr> \<and>
           att_UserID r = att_UserID \<lparr>att_ID = 0, att_EventID = eid, att_UserID = u,
        att_Role = ''attendee'', att_Status = []\<rparr>)"
      by (simp add: find_None_set)
  qed
  show ?thesis
    using inv step
    by (auto simp add: InviteUser_def jsonError_def dbFirst_def split_beta
        split: option.splits if_splits)
qed

lemma storeInv_SetAttendance: "storeInv s \<Longrightarrow> storeInv (snd (SetAttendance c idParam body fl s))"
proof -
  assume inv: "storeInv s"
  have create: "storeInv (snd (createAttendee \<lparr>att_ID = 0, att_EventID = eid, att_UserID = u,
        att_Role = ''attendee'', att_Status = st\<rparr> s))"
    if "find (\<lambda>e. ev_ID e = eid) (events s) = Some ev"
      and "find (\<lambda>a. att_EventID a = eid \<and> att_UserID a = u) (event_attendees s) = None" for eid u ev st
  proof (rule storeInv_createAttendee [OF inv])
    from that(1) have "ev \<in> set (events s)" "ev_ID ev = eid"
      using find_Some_set by fastforce+
    with inv show "att_EventID \<lparr>att_ID = 0, att_EventID = eid, att_UserID = u,
        att_Role = ''attendee'', att_Status = st\<rparr> < next_event_id s"
      by (auto simp add: storeInv_def)
  next
    from that(2) show "\<forall>r\<in>set (event_attendees s).
       \<not> (att_EventID r = att_EventID \<lparr>att_ID = 0, att_EventID = eid, att_UserID = u,
        att_Role = ''attendee'', att_Status = st\<rparr> \<and>
           att_UserID r = att_UserID \<lparr>att_ID = 0, att_EventID = eid, att_UserID = u,
        att_Role = ''attendee'', att_Status = st\<rparr>)"
      by (simp add: find_None_set)
  qed
  have save: "storeInv (saveAttendee (r\<lparr>att_Status := st\<rparr>) s)"
    if "find P (event_attendees s) = Some r" for P r st
    using storeInv_saveAttendee [OF inv] find_Some_set [OF that] by simp
  show ?thesis
    using inv create save
    by (auto simp add: SetAttendance_def jsonError_def dbFirst_def split_beta Let_def
        split: option.splits if_splits)
qed

lemma storeInv_CreateTask: "storeInv s \<Longrightarrow> storeInv (snd (CreateTask c idParam body fl s))"
proof -
  assume inv: "storeInv s"
  have step: "storeInv (snd (createTask \<lparr>task_ID = 0, task_EventID = eid, task_Title = ti,
        task_Description = de\<rparr> s))"
    if "find (\<lambda>e. ev_ID e = eid) (events s) = Some ev" for eid ev ti de
  proof (rule storeInv_createTask [OF inv])
    from that have "ev \<in> set (events s)" "ev_ID ev = eid"
      using find_Some_set by fastforce+
    then show "task_EventID \<lparr>task_ID = 0, task_EventID = eid, task_Title = ti,
        task_Description = de\<rparr> \<in> ev_ID ` set (events s)"
      by auto
  qed
  show ?thesis
    using inv step
    by (auto simp add: CreateTask_def jsonError_def dbFirst_def split_beta
        split: option.splits if_splits)
qed

lemma storeInv_exec: "storeInv s \<Longrightarrow> storeInv (snd (exec c s))"
  by (cases c)
    (simp_all add: storeInv_CreateEvent storeInv_DeleteEvent storeInv_InviteUser
      storeInv_SetAttendance storeInv_CreateTask)

lemma storeInv_run: "storeInv s \<Longrightarrow> storeInv (run cs s)"
  by (induction cs arbitrary: s) (simp_all add: run_def storeInv_exec)

lemma storeInv_reachable: "storeInv (run cs (emptyStore us))"
  by (rule storeInv_run [OF storeInv_emptyStore])

subsection \<open>Creating an event, and the rows of the organizers\<close>

lemma organizerInv_emptyStore: "organizerInv (emptyStore us)"
  by (simp add: organizerInv_def emptyStore_def)

lemma organizerInv_createTask: "organizerInv s \<Longrightarrow> organizerInv (snd (createTask t s))"
  by (simp add: organizerInv_def createTask_def Let_def)

lemma organizerInv_createAttendee:
  "organizerInv s \<Longrightarrow> att_Status a \<in> {[], ''Going'', ''Maybe'', ''Not Going''}
     \<Longrightarrow> organizerInv (snd (createAttendee a s))"
  by (fastforce simp add: organizerInv_def createAttendee_def Let_def)

lemma organizerInv_saveAttendee:
  assumes "storeInv s" and "organizerInv s" and "r \<in> set (event_attendees s)"
    and "st \<in> {[], ''Going'', ''Maybe'', ''Not Going''}"
  shows "organizerInv (saveAttendee (r\<lparr>att_Status := st\<rparr>) s)"
proof -
  let ?g = "\<lambda>x. if att_ID x = att_ID r then r\<lparr>att_Status := st\<rparr> else x"
  have d: "distinct (map att_ID (event_attendees s))" using assms(1) by (simp add: storeInv_def)
  have ex: "list_ex (\<lambda>x. att_ID x = att_ID r) (event_attendees s)"
    using assms(3) by (auto simp add: list_ex_iff)
  have eq: "saveAttendee (r\<lparr>att_Status := st\<rparr>) s = s\<lparr>event_attendees := map ?g (event_attendees s)\<rparr>"
    using ex by (simp add: saveAttendee_def)
  have keep: "att_EventID (?g x) = att_EventID x \<and> att_UserID (?g x) = att_UserID x
      \<and> att_Role (?g x) = att_Role x" if "x \<in> set (event_attendees s)" for x
    using distinct_map_eq [OF d that assms(3)] by auto
  have a: "\<exists>a \<in> set (map ?g (event_attendees s)).
      att_EventID a = ev_ID e \<and> att_UserID a = ev_OrganizerID e \<and> att_Role a = ''organizer''"
    if "e \<in> set (events s)" for e
  proof -
    from assms(2) that obtain x where x: "x \<in> set (event_attendees s)" "att_EventID x = ev_ID e"
      "att_UserID x = ev_OrganizerID e" "att_Role x = ''organizer''"
      by (auto simp add: organizerInv_def)
    have "att_EventID (?g x) = ev_ID e \<and> att_UserID (?g x) = ev_OrganizerID e \<and> att_Role (?g x) = ''organizer''"
      using keep [OF x(1)] x(2-4) by simp
    moreover have "?g x \<in> set (map ?g (event_attendees s))"
      unfolding set_map using x(1) by (rule imageI)
    ultimately show ?thesis by blast
  qed
  have b: "\<forall>a \<in> set (map ?g (event_attendees s)). att_Status a \<in> {[], ''Going'', ''Maybe'', ''Not Going''}"
    using assms(2,4) by (auto simp add: organizerInv_def)
  show ?thesis
    unfolding eq organizerInv_def using a b by simp
qed

lemma organizerInv_deleteEventTx:
  assumes "organizerInv s" and "deleteEventTx evID fl s = Some s'"
  shows "organizerInv s'"
proof -
  have "s' = s\<lparr>event_attendees := filter (\<lambda>a. att_EventID a \<noteq> evID) (event_attendees s),
               tasks := filter (\<lambda>t. task_EventID t \<noteq> evID) (tasks s),
               events := filter (\<lambda>e. ev_ID e \<noteq> evID) (events s)\<rparr>"
    using assms(2) by (auto simp add: deleteEventTx_def Let_def split: if_splits)
  then show ?thesis
    using assms(1) by (fastforce simp add: organizerInv_def)
qed


lemma CreateEvent_stored:
  assumes "storeInv s" and "getUserIDFromContext c = Some uid" and "bindCreateEvent body = Some b"
    and "parseEitherLayout (cer_Date b) = Some d"
    and "\<not> fails fl 0" and "\<not> fails fl 1" and "\<not> fails fl 2"
  shows "CreateEvent c body fl s =
     ((StatusCreated, EventJSON \<lparr>ev_ID = next_event_id s, ev_Title = TrimSpace (cer_Title b),
          ev_Description = cer_Description b, ev_Location = cer_Location b, ev_Date = d,
          ev_OrganizerID = uid\<rparr>),
      s\<lparr>events := events s @ [\<lparr>ev_ID = next_event_id s, ev_Title = TrimSpace (cer_Title b),
            ev_Description = cer_Description b, ev_Location = cer_Location b, ev_Date = d,
            ev_OrganizerID = uid\<rparr>],
        next_event_id := Suc (next_event_id s),
        event_attendees := event_attendees s @ [\<lparr>att_ID = next_attendee_id s,
            att_EventID = next_event_id s, att_UserID = uid, att_Role = ''organizer'', att_Status = []\<rparr>],
        next_attendee_id := Suc (next_attendee_id s)\<rparr>)"
proof -
  have "\<forall>a \<in> set (event_attendees s). att_EventID a \<noteq> next_event_id s"
    using assms(1) by (auto simp add: storeInv_def)
  then have "find (\<lambda>a. att_EventID a = next_event_id s \<and> att_UserID a = uid) (event_attendees s) = None"
    by (simp add: find_None_set)
  then show ?thesis
    using assms(2-7)
    by (simp add: CreateEvent_def createEvent_def firstOrCreateAttendee_def dbFirst_def
        createAttendee_def Let_def)
qed

lemma CreateEvent_cases:
  assumes "\<not> fails fl 0" and "getUserIDFromContext c = Some uid" and "bindCreateEvent body = Some b"
    and "parseEitherLayout (cer_Date b) = Some d"
  shows "fst (CreateEvent c body fl s) =
           (StatusCreated, EventJSON \<lparr>ev_ID = next_event_id s, ev_Title = TrimSpace (cer_Title b),
              ev_Description = cer_Description b, ev_Location = cer_Location b, ev_Date = d,
              ev_OrganizerID = uid\<rparr>)"
    and "events (snd (CreateEvent c body fl s)) =
           events s @ [\<lparr>ev_ID = next_event_id s, ev_Title = TrimSpace (cer_Title b),
              ev_Description = cer_Description b, ev_Location = cer_Location b, ev_Date = d,
              ev_OrganizerID = uid\<rparr>]"
    and "fails fl 1 \<or> fails fl 2 \<Longrightarrow>
           event_attendees (snd (CreateEvent c body fl s)) = event_attendees s"
  using assms
  by (auto simp add: CreateEvent_def createEvent_def firstOrCreateAttendee_def dbFirst_def
        createAttendee_def Let_def split: option.splits)

lemma CreateEvent_unchanged:
  "getUserIDFromContext c = None \<or> bindCreateEvent body = None
     \<or> (\<exists>b. bindCreateEvent body = Some b \<and> parseEitherLayout (cer_Date b) = None) \<or> fails fl 0
   \<Longrightarrow> snd (CreateEvent c body fl s) = s"
  by (auto simp add: CreateEvent_def jsonError_def split: option.splits)

lemma organizerInv_CreateEvent:
  assumes "storeInv s" and "organizerInv s" and "\<not> fails fl 1" and "\<not> fails fl 2"
  shows "organizerInv (snd (CreateEvent c body fl s))"
proof (cases "getUserIDFromContext c = None \<or> bindCreateEvent body = None
     \<or> (\<exists>b. bindCreateEvent body = Some b \<and> parseEitherLayout (cer_Date b) = None) \<or> fails fl 0")
  case True
  then show ?thesis using CreateEvent_unchanged assms(2) by simp
next
  case False
  then obtain uid b d where h: "getUserIDFromContext c = Some uid" "bindCreateEvent body = Some b"
    "parseEitherLayout (cer_Date b) = Some d" "\<not> fails fl 0"
    by auto
  show ?thesis
    using assms(2)
    by (simp add: CreateEvent_stored [OF assms(1) h(1-3) h(4) assms(3,4)] organizerInv_def)
qed

lemma organizerInv_DeleteEvent: "organizerInv s \<Longrightarrow> organizerInv (snd (DeleteEvent c idParam fl s))"
  using organizerInv_deleteEventTx
  by (auto simp add: DeleteEvent_def Transaction_def jsonError_def dbFirst_def
      split: option.splits dbresult.splits if_splits)

lemma organizerInv_InviteUser: "organizerInv s \<Longrightarrow> organizerInv (snd (InviteUser c idParam body fl s))"
proof -
  assume inv: "organizerInv s"
  have step: "organizerInv (snd (createAttendee \<lparr>att_ID = 0, att_EventID = eid, att_UserID = u,
        att_Role = ''attendee'', att_Status = []\<rparr> s))" for eid u
    by (rule organizerInv_createAttendee [OF inv]) simp
  show ?thesis
    using inv step
    by (auto simp add: InviteUser_def jsonError_def dbFirst_def split_beta
        split: option.splits if_splits)
qed

lemma organizerInv_SetAttendance:
  assumes "storeInv s" and inv: "organizerInv s"
  shows "organizerInv (snd (SetAttendance c idParam body fl s))"
proof -
  have create: "organizerInv (snd (createAttendee \<lparr>att_ID = 0, att_EventID = eid, att_UserID = u,
        att_Role = ''attendee'', att_Status = st\<rparr> s))"
    if "st = ''Going'' \<or> st = ''Maybe'' \<or> st = ''Not Going''" for eid u st
    by (rule organizerInv_createAttendee [OF inv]) (use that in auto)
  have save: "organizerInv (saveAttendee (r\<lparr>att_Status := st\<rparr>) s)"
    if "find P (event_attendees s) = Some r" and "st = ''Going'' \<or> st = ''Maybe'' \<or> st = ''Not Going''"
    for P r st
    using organizerInv_saveAttendee [OF assms(1) inv, of r st] find_Some_set [OF that(1)] that(2)
    by auto
  show ?thesis
    using inv create save
    by (auto simp add: SetAttendance_def jsonError_def dbFirst_def split_beta Let_def
        split: option.splits if_splits)
qed

lemma organizerInv_CreateTask: "organizerInv s \<Longrightarrow> organizerInv (snd (CreateTask c idParam body fl s))"
  using organizerInv_createTask
  by (auto simp add: CreateTask_def jsonError_def dbFirst_def split_beta
      split: option.splits if_splits)

lemma organizerInv_exec:
  "storeInv s \<Longrightarrow> organizerInv s \<Longrightarrow> organizerWriteOk c \<Longrightarrow> organizerInv (snd (exec c s))"
  by (cases c)
    (simp_all add: organizerInv_CreateEvent organizerInv_DeleteEvent organizerInv_InviteUser
      organizerInv_SetAttendance organizerInv_CreateTask)

lemma run_Cons: "run (c # cs) s = run cs (snd (exec c s))"
  by (simp add: run_def)

lemma run_append: "run (cs @ ds) s = run ds (run cs s)"
  by (simp add: run_def)

lemma organizerInv_run:
  "storeInv s \<Longrightarrow> organizerInv s \<Longrightarrow> \<forall>c \<in> set cs. organizerWriteOk c \<Longrightarrow> organizerInv (run cs s)"
proof (induction cs arbitrary: s)
  case Nil
  then show ?case by (simp add: run_def)
next
  case (Cons c cs)
  then show ?case
    by (simp add: run_Cons storeInv_exec organizerInv_exec)
qed

subsection \<open>Deleting an event\<close>

text \<open>C3. When the organizer of an event asks for its deletion and the lookup of the
  event is answered, then either one of the three deletes or the commit fails, the
  response is the storage failure and the store is the one before the call; or the call
  succeeds, and the store is the old one without the attendee rows, the tasks and the
  events of that identifier, so that no row refers to the event any more.\<close>

theorem DeleteEvent_cascade_atomic:
  assumes "getUserIDFromContext c = Some uid" and "idParam \<noteq> []" and "Atoi idParam = Some i"
    and "find (\<lambda>e. int (ev_ID e) = i) (events s) = Some ev" and "ev_OrganizerID ev = uid"
    and "\<not> fails fl 0"
  shows "(if fails fl 1 \<or> fails fl 2 \<or> fails fl 3 \<or> fails fl 4
          then DeleteEvent c idParam fl s = ((StatusInternalServerError, ErrorJSON ''delete failed: ''), s)
          else fst (DeleteEvent c idParam fl s) = (StatusOK, MessageJSON ''event deleted'')
             \<and> filter (\<lambda>a. att_EventID a = ev_ID ev) (event_attendees (snd (DeleteEvent c idParam fl s))) = []
             \<and> filter (\<lambda>t. task_EventID t = ev_ID ev) (tasks (snd (DeleteEvent c idParam fl s))) = []
             \<and> filter (\<lambda>e. ev_ID e = ev_ID ev) (events (snd (DeleteEvent c idParam fl s))) = []
             \<and> snd (DeleteEvent c idParam fl s) =
                 s\<lparr>event_attendees := filter (\<lambda>a. att_EventID a \<noteq> ev_ID ev) (event_attendees s),
                   tasks := filter (\<lambda>t. task_EventID t \<noteq> ev_ID ev) (tasks s),
                   events := filter (\<lambda>e. ev_ID e \<noteq> ev_ID ev) (events s)\<rparr>)"
  using assms
  by (auto simp add: DeleteEvent_def dbFirst_def Transaction_def deleteEventTx_def jsonError_def Let_def)

theorem DeleteEvent_cascade_atomic_witness:
  "getUserIDFromContext (Some (CtxUint 1)) = Some 1 \<and> Atoi ''1'' = Some 1
   \<and> find (\<lambda>e. int (ev_ID e) = 1) (events demoStore) = Some (hd (events demoStore))
   \<and> ev_OrganizerID (hd (events demoStore)) = 1
   \<and> DeleteEvent (Some (CtxUint 1)) ''1'' [False, False, True] demoStore
       = ((StatusInternalServerError, ErrorJSON ''delete failed: ''), demoStore)
   \<and> fst (DeleteEvent (Some (CtxUint 1)) ''1'' [] demoStore) = (StatusOK, MessageJSON ''event deleted'')
   \<and> tasks (snd (DeleteEvent (Some (CtxUint 1)) ''1'' [] demoStore)) = []
   \<and> map att_ID (event_attendees (snd (DeleteEvent (Some (CtxUint 1)) ''1'' [] demoStore))) = [3]
   \<and> map ev_ID (events (snd (DeleteEvent (Some (CtxUint 1)) ''1'' [] demoStore))) = [2]"
proof -
  have h1: "getUserIDFromContext (Some (CtxUint 1)) = Some 1"
    by (simp add: getUserIDFromContext_def)
  have h2: "Atoi ''1'' = Some 1"
    by (simp add: number_eval)
  have h3: "find (\<lambda>e. int (ev_ID e) = 1) (events demoStore) = Some (hd (events demoStore))"
    by (simp add: demoStore_def)
  have h4: "ev_OrganizerID (hd (events demoStore)) = 1"
    by (simp add: demoStore_def)
  have h5: "''1'' \<noteq> []" by simp
  have f0: "\<not> fails [] 0" "\<not> fails [False, False, True] 0" by (simp_all add: fails_def)
  note ok = DeleteEvent_cascade_atomic [OF h1 h5 h2 h3 h4 f0(1)]
  note ko = DeleteEvent_cascade_atomic [OF h1 h5 h2 h3 h4 f0(2)]
  have ev1: "ev_ID (hd (events demoStore)) = 1" by (simp add: demoStore_def)
  show ?thesis
    using ok ko h1 h2 h3 h4 unfolding ev1
    by (simp add: fails_def) (simp add: demoStore_def)
qed

subsection \<open>The status of an attendance\<close>


lemma normalizeStatus_empty: "normalizeStatus [] = []"
  by (simp add: string_eval)

lemma filter_single_find: "filter P xs = [a] \<Longrightarrow> find P xs = Some a"
  by (induction xs) (auto split: if_splits)


lemma SetAttendance_accepted:
  assumes auth: "getUserIDFromContext c = Some uid"
    and v: "normalizeStatus st \<in> {''Going'', ''Maybe'', ''Not Going''}"
    and p: "ParseUint idParam = Some eid" and e: "find (\<lambda>e. ev_ID e = eid) (events s) = Some ev"
    and f: "\<not> fails fl 0" "\<not> fails fl 1" "\<not> fails fl 2"
  shows "SetAttendance c idParam (Some st) fl s =
              (case find (\<lambda>a. att_EventID a = eid \<and> att_UserID a = uid) (event_attendees s) of
                 None \<Rightarrow>
                   ((StatusOK, AttendeeJSON \<lparr>att_ID = next_attendee_id s, att_EventID = eid, att_UserID = uid,
                        att_Role = ''attendee'', att_Status = normalizeStatus st\<rparr>),
                    s\<lparr>event_attendees := event_attendees s @
                         [\<lparr>att_ID = next_attendee_id s, att_EventID = eid, att_UserID = uid,
                           att_Role = ''attendee'', att_Status = normalizeStatus st\<rparr>],
                      next_attendee_id := Suc (next_attendee_id s)\<rparr>)
               | Some a \<Rightarrow>
                   ((StatusOK, AttendeeJSON (a\<lparr>att_Status := normalizeStatus st\<rparr>)),
                    s\<lparr>event_attendees :=
                         map (\<lambda>r. if att_ID r = att_ID a then a\<lparr>att_Status := normalizeStatus st\<rparr> else r)
                           (event_attendees s)\<rparr>))"
proof -
  from v have ne: "st \<noteq> []" using normalizeStatus_empty by auto
  show ?thesis
  proof (cases "find (\<lambda>a. att_EventID a = eid \<and> att_UserID a = uid) (event_attendees s)")
    case None
    with v p e f ne auth show ?thesis
      by (auto simp add: SetAttendance_def bindAttendance_def dbFirst_def createAttendee_def Let_def)
  next
    case (Some a)
    then have "a \<in> set (event_attendees s)"
      by (auto simp add: find_Some_iff)
    then have "list_ex (\<lambda>r. att_ID r = att_ID a) (event_attendees s)"
      by (auto simp add: list_ex_iff)
    with Some v p e f ne auth show ?thesis
      by (auto simp add: SetAttendance_def bindAttendance_def dbFirst_def saveAttendee_def Let_def)
  qed
qed



subsection \<open>Tasks of an event\<close>

text \<open>C10. \<^verbatim>\<open>GetTasksByEvent\<close> takes the path parameter only: it looks at no caller and
  at no event. When the parameter is an identifier and the store answers, the response
  is 200 with the tasks that carry the identifier; in a store reached by requests from
  an empty one, an identifier of no stored event gives the empty list, and not a 404.\<close>

theorem GetTasksByEvent_no_existence_check:
  assumes "ParseUint idParam = Some eid" and "\<not> fails fl 0"
  shows "GetTasksByEvent idParam fl s = (StatusOK, TasksJSON (filter (\<lambda>t. task_EventID t = eid) (tasks s)))
       \<and> (s = run cs (emptyStore us) \<and> eid \<notin> ev_ID ` set (events s) \<longrightarrow>
            GetTasksByEvent idParam fl s = (StatusOK, TasksJSON []))"
proof -
  have a: "GetTasksByEvent idParam fl s = (StatusOK, TasksJSON (filter (\<lambda>t. task_EventID t = eid) (tasks s)))"
    using assms by (simp add: GetTasksByEvent_def)
  have "filter (\<lambda>t. task_EventID t = eid) (tasks s) = []"
    if "s = run cs (emptyStore us)" and "eid \<notin> ev_ID ` set (events s)"
  proof -
    have "storeInv s" using that(1) storeInv_reachable by simp
    then have "\<forall>t \<in> set (tasks s). task_EventID t \<in> ev_ID ` set (events s)"
      by (simp add: storeInv_def)
    with that(2) show ?thesis
      by (auto simp add: filter_empty_conv)
  qed
  with a show ?thesis by auto
qed

theorem GetTasksByEvent_no_existence_check_witness:
  "ParseUint ''5'' = Some 5 \<and> \<not> fails [] 0 \<and> demoStore = run demoCalls (emptyStore demoUsers)
   \<and> 5 \<notin> ev_ID ` set (events demoStore)
   \<and> GetTasksByEvent ''5'' [] demoStore = (StatusOK, TasksJSON [])"
proof -
  have p: "ParseUint ''5'' = Some 5" by (simp add: number_eval)
  have f: "\<not> fails [] 0" by (simp add: fails_def)
  have r: "demoStore = run demoCalls (emptyStore demoUsers)" by (simp add: demoStore_reachable)
  have n: "5 \<notin> ev_ID ` set (events demoStore)" by (simp add: demoStore_def)
  from GetTasksByEvent_no_existence_check [OF p f, of demoStore demoCalls demoUsers] r n
  have "GetTasksByEvent ''5'' [] demoStore = (StatusOK, TasksJSON [])" by blast
  with p f r n show ?thesis by simp
qed

subsection \<open>Invitations\<close>

lemma filter_distinct_map_single:
  "distinct (map f xs) \<Longrightarrow> x \<in> set xs \<Longrightarrow> filter (\<lambda>y. f y = f x) xs = [x]"
proof (induction xs)
  case Nil
  then show ?case by simp
next
  case (Cons y ys)
  show ?case
  proof (cases "y = x")
    case True
    with Cons.prems have "\<forall>z \<in> set ys. f z \<noteq> f x" by (auto simp add: image_iff)
    then have "filter (\<lambda>y. f y = f x) ys = []" by (simp add: filter_empty_conv)
    with True show ?thesis by simp
  next
    case False
    with Cons.prems have "x \<in> set ys" "f y \<noteq> f x" by auto
    with Cons show ?thesis by simp
  qed
qed







subsection \<open>The two writes of CreateEvent\<close>

text \<open>C4, as the specification states it, fails: the event and the organizer's row are
  written by two calls outside any transaction, and the error of the second is dropped.
  With a fault at the query of \<^verbatim>\<open>FirstOrCreate\<close> the response is 201, the event is stored
  and no attendee row is.\<close>

theorem CreateEvent_not_atomic_counterexample:
  "fst (fst (CreateEvent (Some (CtxUint 1))
        (Some \<lparr>cer_Title = ''Offsite'', cer_Description = [], cer_Location = [], cer_Date = ''2024-06-01''\<rparr>)
        [False, True] (emptyStore demoUsers))) = StatusCreated
   \<and> map ev_ID (events (snd (CreateEvent (Some (CtxUint 1))
        (Some \<lparr>cer_Title = ''Offsite'', cer_Description = [], cer_Location = [], cer_Date = ''2024-06-01''\<rparr>)
        [False, True] (emptyStore demoUsers)))) = [1]
   \<and> event_attendees (snd (CreateEvent (Some (CtxUint 1))
        (Some \<lparr>cer_Title = ''Offsite'', cer_Description = [], cer_Location = [], cer_Date = ''2024-06-01''\<rparr>)
        [False, True] (emptyStore demoUsers))) = []"
  by (simp add: CreateEvent_def parse_demo_dates store_eval emptyStore_def)

text \<open>C4, amended. For an authenticated caller, a body that binds and a date that parses,
  in a store reached by requests from an empty one: when the insert of the event fails the
  response is the storage failure and the store is unchanged; otherwise the response is
  201 with the new event and the event is stored, whatever becomes of the second write.
  The organizer's row, with the role \<^verbatim>\<open>organizer\<close> and the empty status, is added exactly
  when the store answers both calls of \<^verbatim>\<open>FirstOrCreate\<close>; with a fault there the attendee
  rows are the old ones.\<close>

theorem CreateEvent_two_writes:
  assumes reach: "s = run cs (emptyStore us)"
    and auth: "getUserIDFromContext c = Some uid" and bind: "bindCreateEvent body = Some b"
    and date: "parseEitherLayout (cer_Date b) = Some d"
  shows "(if fails fl 0
          then CreateEvent c body fl s
                 = ((StatusInternalServerError, ErrorJSON ''could not create event: ''), s)
          else fst (CreateEvent c body fl s) =
                 (StatusCreated, EventJSON \<lparr>ev_ID = next_event_id s, ev_Title = TrimSpace (cer_Title b),
                    ev_Description = cer_Description b, ev_Location = cer_Location b, ev_Date = d,
                    ev_OrganizerID = uid\<rparr>)
             \<and> events (snd (CreateEvent c body fl s)) =
                 events s @ [\<lparr>ev_ID = next_event_id s, ev_Title = TrimSpace (cer_Title b),
                    ev_Description = cer_Description b, ev_Location = cer_Location b, ev_Date = d,
                    ev_OrganizerID = uid\<rparr>]
             \<and> event_attendees (snd (CreateEvent c body fl s)) =
                 (if fails fl 1 \<or> fails fl 2 then event_attendees s
                  else event_attendees s @ [\<lparr>att_ID = next_attendee_id s, att_EventID = next_event_id s,
                         att_UserID = uid, att_Role = ''organizer'', att_Status = []\<rparr>]))"
proof (cases "fails fl 0")
  case True
  then show ?thesis
    using auth bind date by (simp add: CreateEvent_def jsonError_def)
next
  case f0: False
  have si: "storeInv s" using reach storeInv_reachable by simp
  show ?thesis
  proof (cases "fails fl 1 \<or> fails fl 2")
    case True
    with f0 CreateEvent_cases [OF f0 auth bind date, of s] show ?thesis by simp
  next
    case False
    then have "\<not> fails fl 1" "\<not> fails fl 2" by simp_all
    from CreateEvent_stored [OF si auth bind date f0 this] f0 False show ?thesis by simp
  qed
qed

theorem CreateEvent_two_writes_witness:
  "demoStore = run demoCalls (emptyStore demoUsers)
   \<and> getUserIDFromContext (Some (CtxUint 2)) = Some 2
   \<and> parseEitherLayout ''2024-06-01'' = Some 63852796800000000000
   \<and> CreateEvent (Some (CtxUint 2))
        (Some \<lparr>cer_Title = ''Picnic'', cer_Description = [], cer_Location = [], cer_Date = ''2024-06-01''\<rparr>)
        [True] demoStore
       = ((StatusInternalServerError, ErrorJSON ''could not create event: ''), demoStore)
   \<and> fst (fst (CreateEvent (Some (CtxUint 2))
        (Some \<lparr>cer_Title = ''Picnic'', cer_Description = [], cer_Location = [], cer_Date = ''2024-06-01''\<rparr>)
        [False, False, True] demoStore)) = StatusCreated
   \<and> event_attendees (snd (CreateEvent (Some (CtxUint 2))
        (Some \<lparr>cer_Title = ''Picnic'', cer_Description = [], cer_Location = [], cer_Date = ''2024-06-01''\<rparr>)
        [False, False, True] demoStore)) = event_attendees demoStore
   \<and> event_attendees (snd (CreateEvent (Some (CtxUint 2))
        (Some \<lparr>cer_Title = ''Picnic'', cer_Description = [], cer_Location = [], cer_Date = ''2024-06-01''\<rparr>)
        [] demoStore))
       = event_attendees demoStore @
           [\<lparr>att_ID = 4, att_EventID = 3, att_UserID = 2, att_Role = ''organizer'', att_Status = []\<rparr>]"
proof -
  let ?b = "\<lparr>cer_Title = ''Picnic'', cer_Description = [], cer_Location = [], cer_Date = ''2024-06-01''\<rparr>"
  have r: "demoStore = run demoCalls (emptyStore demoUsers)" by (simp add: demoStore_reachable)
  have au: "getUserIDFromContext (Some (CtxUint 2)) = Some 2" by (simp add: getUserIDFromContext_def)
  have bi: "bindCreateEvent (Some ?b) = Some ?b" by (simp add: bindCreateEvent_def)
  have da: "parseEitherLayout (cer_Date ?b) = Some 63852796800000000000"
    by (simp add: parse_demo_dates)
  note w = CreateEvent_two_writes [OF r au bi da]
  have n: "next_event_id demoStore = 3" "next_attendee_id demoStore = 4" by (simp_all add: demoStore_def)
  show ?thesis
    using w [of "[True]"] w [of "[False, False, True]"] w [of "[]"] r au
    by (simp add: fails_def parse_demo_dates n)
qed

subsection \<open>The row of the organizer\<close>

lemma organizerRows_single:
  assumes "storeInv s" and "a \<in> set (event_attendees s)"
    and "att_EventID a = ev_ID e" and "att_UserID a = ev_OrganizerID e"
  shows "organizerRows s e = [a]"
proof -
  have d: "distinct (map (\<lambda>a. (att_EventID a, att_UserID a)) (event_attendees s))"
    using assms(1) by (simp add: storeInv_def)
  from filter_distinct_map_single [OF d assms(2)] assms(3,4)
  show ?thesis by (simp add: organizerRows_def prod_eq_iff)
qed

text \<open>C1, as the specification states it, fails: \<^verbatim>\<open>SetAttendance\<close> has no case for the
  organizer, finds the organizer's row as the caller's and saves the new status in it.
  After the requests of the example and an RSVP of user 1 for the own event 1, the row of
  the organizer holds the status \<^verbatim>\<open>Going\<close>.\<close>

theorem organizer_status_counterexample:
  "ev_ID (events (run (demoCalls @ [CallSetAttendance (Some (CtxUint 1)) ''1'' (Some ''going'') []])
             (emptyStore demoUsers)) ! 0) = 1
   \<and> ev_OrganizerID (events (run (demoCalls @ [CallSetAttendance (Some (CtxUint 1)) ''1'' (Some ''going'') []])
             (emptyStore demoUsers)) ! 0) = 1
   \<and> filter (\<lambda>a. att_EventID a = 1 \<and> att_UserID a = 1)
        (event_attendees (run (demoCalls @ [CallSetAttendance (Some (CtxUint 1)) ''1'' (Some ''going'') []])
             (emptyStore demoUsers)))
      = [\<lparr>att_ID = 1, att_EventID = 1, att_UserID = 1, att_Role = ''organizer'', att_Status = ''Going''\<rparr>]"
proof -
  have g: "normalizeStatus ''going'' = ''Going''" by (simp add: string_eval)
  have "run (demoCalls @ [CallSetAttendance (Some (CtxUint 1)) ''1'' (Some ''going'') []]) (emptyStore demoUsers)
      = snd (SetAttendance (Some (CtxUint 1)) ''1'' (Some ''going'') [] demoStore)"
    by (simp add: run_append demoStore_reachable) (simp add: run_def)
  then show ?thesis
    by (simp add: SetAttendance_def ParseUint_1 g store_eval demoStore_def)
qed

text \<open>C1, amended. Take a store reached from an empty one by requests in which the store
  answered every write of an organizer's row. Every stored event has exactly one row of
  its organizer; the role of that row is \<^verbatim>\<open>organizer\<close> and its status is empty or one of
  \<^verbatim>\<open>Going\<close>, \<^verbatim>\<open>Maybe\<close>, \<^verbatim>\<open>Not Going\<close>. An RSVP of the organizer for the own event that
  is accepted leaves this row the only row of the organizer, with the same role and
  identifier, and writes the normalized status into it.\<close>

theorem organizer_row_role_kept:
  assumes ok: "\<forall>c \<in> set cs. organizerWriteOk c" and reach: "s = run cs (emptyStore us)"
    and ev: "e \<in> set (events s)"
  shows "\<exists>a. organizerRows s e = [a] \<and> att_Role a = ''organizer''
            \<and> att_Status a \<in> {[], ''Going'', ''Maybe'', ''Not Going''}
            \<and> (getUserIDFromContext c = Some (ev_OrganizerID e) \<and> ParseUint idParam = Some (ev_ID e)
                 \<and> normalizeStatus st \<in> {''Going'', ''Maybe'', ''Not Going''}
                 \<and> \<not> fails fl 0 \<and> \<not> fails fl 1 \<and> \<not> fails fl 2 \<longrightarrow>
               organizerRows (snd (SetAttendance c idParam (Some st) fl s)) e
                 = [a\<lparr>att_Status := normalizeStatus st\<rparr>])"
proof -
  have si: "storeInv s" using reach storeInv_reachable by simp
  have oi: "organizerInv s"
    using reach organizerInv_run [OF storeInv_emptyStore organizerInv_emptyStore ok] by simp
  from oi ev obtain a where a: "a \<in> set (event_attendees s)" "att_EventID a = ev_ID e"
    "att_UserID a = ev_OrganizerID e" "att_Role a = ''organizer''"
    by (auto simp add: organizerInv_def)
  have rows: "organizerRows s e = [a]"
    by (rule organizerRows_single [OF si a(1-3)])
  have st: "att_Status a \<in> {[], ''Going'', ''Maybe'', ''Not Going''}"
    using oi a(1) by (simp add: organizerInv_def)
  have rsvp: "organizerRows (snd (SetAttendance c idParam (Some st) fl s)) e
                 = [a\<lparr>att_Status := normalizeStatus st\<rparr>]"
    if h: "getUserIDFromContext c = Some (ev_OrganizerID e)" "ParseUint idParam = Some (ev_ID e)"
      "normalizeStatus st \<in> {''Going'', ''Maybe'', ''Not Going''}"
      "\<not> fails fl 0" "\<not> fails fl 1" "\<not> fails fl 2"
  proof -
    let ?s' = "snd (SetAttendance c idParam (Some st) fl s)"
    let ?a' = "a\<lparr>att_Status := normalizeStatus st\<rparr>"
    from ev obtain e' where e': "find (\<lambda>x. ev_ID x = ev_ID e) (events s) = Some e'"
      by (cases "find (\<lambda>x. ev_ID x = ev_ID e) (events s)") (auto simp add: find_None_set)
    have r: "find (\<lambda>x. att_EventID x = ev_ID e \<and> att_UserID x = ev_OrganizerID e) (event_attendees s) = Some a"
      using rows by (simp add: organizerRows_def filter_single_find)
    have "event_attendees ?s' =
        map (\<lambda>r. if att_ID r = att_ID a then ?a' else r) (event_attendees s)"
      by (simp add: SetAttendance_accepted [OF h(1) h(3) h(2) e' h(4-6)] r)
    then have "?a' \<in> set (event_attendees ?s')"
      using a(1) by (auto simp add: image_iff intro!: bexI [of _ a])
    moreover have "storeInv ?s'"
      by (rule storeInv_SetAttendance [OF si])
    ultimately show ?thesis
      using a(2,3) by (intro organizerRows_single) simp_all
  qed
  from rows a(4) st rsvp show ?thesis by blast
qed

theorem organizer_row_role_kept_witness:
  "list_all organizerWriteOk demoCalls \<and> demoStore = run demoCalls (emptyStore demoUsers)
   \<and> events demoStore ! 0 \<in> set (events demoStore)
   \<and> getUserIDFromContext (Some (CtxUint 1)) = Some (ev_OrganizerID (events demoStore ! 0))
   \<and> ParseUint ''1'' = Some (ev_ID (events demoStore ! 0))
   \<and> normalizeStatus ''going'' = ''Going''
   \<and> organizerRows demoStore (events demoStore ! 0)
       = [\<lparr>att_ID = 1, att_EventID = 1, att_UserID = 1, att_Role = ''organizer'', att_Status = []\<rparr>]
   \<and> organizerRows (snd (SetAttendance (Some (CtxUint 1)) ''1'' (Some ''going'') [] demoStore))
         (events demoStore ! 0)
       = [\<lparr>att_ID = 1, att_EventID = 1, att_UserID = 1, att_Role = ''organizer'', att_Status = ''Going''\<rparr>]"
proof -
  have ok: "list_all organizerWriteOk demoCalls"
    by (simp add: demoCalls_def fails_def)
  then have ok': "\<forall>c \<in> set demoCalls. organizerWriteOk c"
    by (simp add: list_all_iff)
  have r: "demoStore = run demoCalls (emptyStore demoUsers)" by (simp add: demoStore_reachable)
  have e: "events demoStore ! 0 \<in> set (events demoStore)" by (simp add: demoStore_def)
  have au: "getUserIDFromContext (Some (CtxUint 1)) = Some (ev_OrganizerID (events demoStore ! 0))"
    by (simp add: getUserIDFromContext_def demoStore_def)
  have p: "ParseUint ''1'' = Some (ev_ID (events demoStore ! 0))"
    by (simp add: ParseUint_1 demoStore_def)
  have g: "normalizeStatus ''going'' = ''Going''" by (simp add: string_eval)
  have f: "\<not> fails [] 0 \<and> \<not> fails [] 1 \<and> \<not> fails [] 2" by (simp add: fails_def)
  have rows: "organizerRows demoStore (events demoStore ! 0)
       = [\<lparr>att_ID = 1, att_EventID = 1, att_UserID = 1, att_Role = ''organizer'', att_Status = []\<rparr>]"
    by (simp add: organizerRows_def demoStore_def)
  from organizer_row_role_kept [OF ok' r e, of "Some (CtxUint 1)" "''1''" "''going''" "[]"]
  obtain a where a: "organizerRows demoStore (events demoStore ! 0) = [a]"
    "getUserIDFromContext (Some (CtxUint 1)) = Some (ev_OrganizerID (events demoStore ! 0))
       \<and> ParseUint ''1'' = Some (ev_ID (events demoStore ! 0))
       \<and> normalizeStatus ''going'' \<in> {''Going'', ''Maybe'', ''Not Going''}
       \<and> \<not> fails [] 0 \<and> \<not> fails [] 1 \<and> \<not> fails [] 2 \<longrightarrow>
     organizerRows (snd (SetAttendance (Some (CtxUint 1)) ''1'' (Some ''going'') [] demoStore))
         (events demoStore ! 0) = [a\<lparr>att_Status := normalizeStatus ''going''\<rparr>]"
    by blast
  from a(1) rows have "a = \<lparr>att_ID = 1, att_EventID = 1, att_UserID = 1, att_Role = ''organizer'', att_Status = []\<rparr>"
    by simp
  with a(2) au p g f
  have "organizerRows (snd (SetAttendance (Some (CtxUint 1)) ''1'' (Some ''going'') [] demoStore))
         (events demoStore ! 0)
       = [\<lparr>att_ID = 1, att_EventID = 1, att_UserID = 1, att_Role = ''organizer'', att_Status = ''Going''\<rparr>]"
    by simp
  with ok r e au p g rows show ?thesis by simp
qed

subsection \<open>Search: the order of the results\<close>


lemma parse_noon: "parseEitherLayout ''2024-06-01T12:00:00Z'' = Some 63852840000000000000"
  by (simp add: time_eval)
















subsection \<open>Search: the type parameter\<close>




subsection \<open>Search: the end of the date range\<close>

text \<open>The end bound is the parsed instant plus 23h59m59s, for either layout.\<close>

lemma searchEnd_shift:
  "sr_EndDate req \<noteq> [] \<Longrightarrow> parseEitherLayout (sr_EndDate req) = Some t
     \<Longrightarrow> searchEnd req = Some (t + 86399 * Second)"
  by (simp add: searchEnd_def)

text \<open>C5. With \<^verbatim>\<open>end_date=2024-06-01\<close> the bound is 2024-06-01T23:59:59Z, and the event of
  2024-06-02T00:00:01Z is left out, as the specification says. With the instant
  \<^verbatim>\<open>end_date=2024-06-01T12:00:00Z\<close> the bound is 2024-06-02T11:59:59Z, so the same event,
  which is later than the instant, is returned.\<close>

theorem SearchHandler_end_instant_shifted:
  "parseRFC3339 ''2024-06-01T12:00:00Z'' = Some 63852840000000000000
   \<and> ev_Date (events demoStore ! 1) = 63852883201000000000
   \<and> searchEnd \<lparr>sr_Keyword = [], sr_StartDate = [], sr_EndDate = ''2024-06-01T12:00:00Z'',
        sr_Role = [], sr_Type = ''event''\<rparr> = Some 63852926399000000000
   \<and> SearchHandler (Some (CtxUint 1))
        \<lparr>sr_Keyword = [], sr_StartDate = [], sr_EndDate = ''2024-06-01T12:00:00Z'',
          sr_Role = [], sr_Type = ''event''\<rparr> [] demoStore
       = (StatusOK, ResultsJSON [EventResult (events demoStore ! 0) [tasks demoStore ! 0],
                                 EventResult (events demoStore ! 1) []])
   \<and> searchEnd \<lparr>sr_Keyword = [], sr_StartDate = [], sr_EndDate = ''2024-06-01'',
        sr_Role = [], sr_Type = ''event''\<rparr> = parseRFC3339 ''2024-06-01T23:59:59Z''
   \<and> SearchHandler (Some (CtxUint 1))
        \<lparr>sr_Keyword = [], sr_StartDate = [], sr_EndDate = ''2024-06-01'',
          sr_Role = [], sr_Type = ''event''\<rparr> [] demoStore
       = (StatusOK, ResultsJSON [EventResult (events demoStore ! 0) [tasks demoStore ! 0]])"
proof -
  have p: "parseRFC3339 ''2024-06-01T12:00:00Z'' = Some 63852840000000000000"
    "parseRFC3339 ''2024-06-01T23:59:59Z'' = Some 63852883199000000000"
    by (simp_all add: time_eval)
  have e: "searchEnd \<lparr>sr_Keyword = [], sr_StartDate = [], sr_EndDate = ''2024-06-01T12:00:00Z'',
        sr_Role = [], sr_Type = ''event''\<rparr> = Some 63852926399000000000"
    "searchEnd \<lparr>sr_Keyword = [], sr_StartDate = [], sr_EndDate = ''2024-06-01'',
        sr_Role = [], sr_Type = ''event''\<rparr> = Some 63852883199000000000"
    by (simp_all add: searchEnd_def parse_noon parse_demo_dates)
  show ?thesis
    unfolding p
    by (simp add: e SearchHandler_def searchType_def searchStart_def searchEventsPart_def queryEvents_def
        eventMatches_def roleCount_def store_eval string_eval demoStore_def)
qed

end
